theory Spec2Isabelle
  imports Main "HOL-Library.Char_ord" "HOL-Library.List_Lexorder"
begin

section \<open>Python strings\<close>

text \<open>
  Strings are \<open>char list\<close>s and are read as ASCII text: \<open>str.lower\<close> maps
  \<open>A\<close>..\<open>Z\<close> to \<open>a\<close>..\<open>z\<close> and leaves every other character alone, and the
  whitespace of \<open>str.strip\<close> and of the regular expression class \<open>\s\<close> is the ASCII
  part of \<open>str.isspace\<close>: the codes 9..13, 28..31 and 32.
\<close>

definition is_space :: "char \<Rightarrow> bool" where
  "is_space c = (c \<in> set [CHR 0x09, CHR 0x0A, CHR 0x0B, CHR 0x0C, CHR 0x0D,
                           CHR 0x1C, CHR 0x1D, CHR 0x1E, CHR 0x1F, CHR 0x20])"

definition py_strip :: "string \<Rightarrow> string" where
  "py_strip s = rev (dropWhile is_space (rev (dropWhile is_space s)))"

definition lower_char :: "char \<Rightarrow> char" where
  "lower_char c =
     (case map_of (zip ''ABCDEFGHIJKLMNOPQRSTUVWXYZ'' ''abcdefghijklmnopqrstuvwxyz'') c of
        Some d \<Rightarrow> d
      | None \<Rightarrow> c)"

definition py_lower :: "string \<Rightarrow> string" where
  "py_lower s = map lower_char s"

text \<open>\<open>s.replace(old, new)\<close> for a one-character \<open>old\<close>.\<close>

definition py_replace :: "char \<Rightarrow> string \<Rightarrow> string \<Rightarrow> string" where
  "py_replace old new s = concat (map (\<lambda>c. if c = old then new else [c]) s)"

text \<open>\<open>sep.join(xs)\<close>.\<close>

fun py_join :: "string \<Rightarrow> string list \<Rightarrow> string" where
  "py_join sep [] = []"
| "py_join sep [x] = x"
| "py_join sep (x # y # ys) = x @ sep @ py_join sep (y # ys)"

section \<open>Data frames\<close>

text \<open>
  A cell of a pandas column is null (\<open>NaN\<close>/\<open>None\<close>) or a value, kept as the string
  \<open>str\<close> renders it to. A data frame is its column labels, its row labels and its
  rows in order; a row gives the cell under each column label. \<open>pd.read_csv\<close> and
  \<open>pd.DataFrame(records)\<close> label the rows \<open>0, 1, 2, ...\<close>; a selection keeps the label
  of every row it keeps.
\<close>

datatype cell = NaN | Str string

type_synonym row = "string \<Rightarrow> cell"

record dataframe =
  df_columns :: "string list"
  df_index :: "nat list"
  df_rows :: "row list"

text \<open>\<open>Series.notna()\<close> and \<open>Series.astype(str)\<close>, cell by cell.\<close>

fun notna :: "cell \<Rightarrow> bool" where
  "notna NaN = False"
| "notna (Str s) = True"

fun astype_str :: "cell \<Rightarrow> string" where
  "astype_str NaN = ''nan''"
| "astype_str (Str s) = s"

text \<open>\<open>DataFrame.empty\<close>: some axis has length 0.\<close>

definition df_empty :: "dataframe \<Rightarrow> bool" where
  "df_empty df = (df_columns df = [] \<or> df_rows df = [])"

section \<open>The Job entity (domain/entities/job.py)\<close>

datatype JobStatus = PENDING | RUNNING | FAILED | DONE | DONE_WITH_ERRORS

datatype error =
    ValueError string
  | RuntimeError string
  | FileNotFoundError string
  | InvalidColumnNameError string

record column =
  name :: string
  description :: string

datatype path = Path (path_dir: string) (path_name: string)

record job =
  job_id :: nat
  files :: "path list"
  job_context :: string
  columns :: "column list"
  status :: JobStatus
  result :: "dataframe option"
  error_message :: "string option"
  total_files :: int
  files_processed :: int
  error_count :: int

text \<open>\<open>Job.__init__\<close>: a new job is PENDING with no result, no message and zero counters.\<close>

definition new_job :: "nat \<Rightarrow> path list \<Rightarrow> string \<Rightarrow> column list \<Rightarrow> job" where
  "new_job i fs ctx cs =
     \<lparr>job_id = i, files = fs, job_context = ctx, columns = cs, status = PENDING,
      result = None, error_message = None, total_files = int (length fs),
      files_processed = 0, error_count = 0\<rparr>"

text \<open>
  A method that can raise returns the exception, if any, next to the job as the
  call leaves it: every \<open>raise\<close> of the entity stands before the first assignment,
  so a failed call returns the job it was given.
\<close>

definition start :: "job \<Rightarrow> error option \<times> job" where
  "start j =
     (if status j \<noteq> PENDING
      then (Some (ValueError ''Job can only be started if it is in pending state.''), j)
      else (None, j\<lparr>status := RUNNING\<rparr>))"

definition update_progress :: "job \<Rightarrow> int \<Rightarrow> int option \<Rightarrow> job" where
  "update_progress j n ec =
     (let j1 = j\<lparr>files_processed := n\<rparr>
      in case ec of None \<Rightarrow> j1 | Some e \<Rightarrow> j1\<lparr>error_count := e\<rparr>)"

text \<open>
  One cell of the mask
  \<open>error_column.notna() & (error_column != '') & (error_column.astype(str).str.strip() != '')\<close>.
\<close>

definition error_mask :: "cell \<Rightarrow> bool" where
  "error_mask c = (notna c \<and> c \<noteq> Str [] \<and> py_strip (astype_str c) \<noteq> [])"

definition has_errors :: "dataframe option \<Rightarrow> bool" where
  "has_errors r =
     (case r of
        None \<Rightarrow> False
      | Some df \<Rightarrow>
          if df_empty df then False
          else if ''error'' \<in> set (df_columns df)
          then list_ex (\<lambda>rw. error_mask (rw ''error'')) (df_rows df)
          else False)"

definition complete :: "job \<Rightarrow> dataframe \<Rightarrow> error option \<times> job" where
  "complete j df =
     (if status j \<noteq> RUNNING
      then (Some (ValueError ''Job can only be completed if it is running.''), j)
      else (None,
            (if has_errors (Some df) then j\<lparr>status := DONE_WITH_ERRORS\<rparr>
             else j\<lparr>status := DONE\<rparr>)\<lparr>result := Some df\<rparr>))"

definition fail :: "job \<Rightarrow> string \<Rightarrow> error option \<times> job" where
  "fail j message =
     (if status j \<noteq> RUNNING
      then (Some (ValueError ''Job can only be failed if it is running.''), j)
      else (None, j\<lparr>status := FAILED, error_message := Some message\<rparr>))"

definition restart_for_retry :: "job \<Rightarrow> int \<Rightarrow> error option \<times> job" where
  "restart_for_retry j new_files_processed =
     (if status j \<noteq> DONE_WITH_ERRORS
      then (Some (ValueError ''Job can only be restarted if it has done_with_errors status.''), j)
      else (None, j\<lparr>status := RUNNING, files_processed := new_files_processed\<rparr>))"

text \<open>
  The four invariants the data model states for a Job, and the reading of
  "a record with a non-empty error" used by the status derivation.
\<close>

definition job_invariants :: "job \<Rightarrow> bool" where
  "job_invariants j =
     (files_processed j \<le> total_files j \<and>
      error_count j \<le> files_processed j \<and>
      ((result j \<noteq> None) = (status j \<in> {DONE, DONE_WITH_ERRORS})) \<and>
      ((error_message j \<noteq> None) = (status j = FAILED)))"

definition has_nonempty_error :: "dataframe \<Rightarrow> bool" where
  "has_nonempty_error df =
     (''error'' \<in> set (df_columns df) \<and>
      list_ex (\<lambda>rw. case rw ''error'' of NaN \<Rightarrow> False | Str s \<Rightarrow> s \<noteq> []) (df_rows df))"

definition has_nonblank_error :: "dataframe \<Rightarrow> bool" where
  "has_nonblank_error df =
     (''error'' \<in> set (df_columns df) \<and>
      list_ex (\<lambda>rw. case rw ''error'' of NaN \<Rightarrow> False | Str s \<Rightarrow> py_strip s \<noteq> []) (df_rows df))"

section \<open>The checkpoint log and the orchestrator (application/use_cases)\<close>

text \<open>
  A checkpoint record is the dict the processor hands to \<open>row_callback\<close>: the keys
  \<open>source_file\<close> and \<open>error\<close>, which every record of \<open>LLMProcessor.run\<close> has, and the
  other keys in order. The log is the raw CSV of the job: \<open>None\<close> while the file
  does not exist, otherwise its rows in order, every field as the text
  \<open>csv.DictWriter\<close> wrote.
\<close>

record checkpoint =
  source_file :: string
  field_values :: "(string \<times> string) list"
  error :: string

type_synonym raw_csv = "checkpoint list option"

definition csv_rows :: "raw_csv \<Rightarrow> checkpoint list" where
  "csv_rows f = (case f of None \<Rightarrow> [] | Some rs \<Rightarrow> rs)"

text \<open>The \<open>source_file\<close> of every record of the log, as written.\<close>

definition logged_files :: "raw_csv \<Rightarrow> string list" where
  "logged_files f = map source_file (csv_rows f)"

text \<open>The strings \<open>pd.read_csv\<close> reads as null by default.\<close>

definition na_values :: "string list" where
  "na_values = [[], ''#N/A'', ''#N/A N/A'', ''#NA'', ''-1.#IND'', ''-1.#QNAN'', ''-NaN'',
     ''-nan'', ''1.#IND'', ''1.#QNAN'', ''<NA>'', ''N/A'', ''NA'', ''NULL'', ''NaN'', ''None'',
     ''n/a'', ''nan'', ''null'']"

definition csv_cell :: "string \<Rightarrow> cell" where
  "csv_cell s = (if s \<in> set na_values then NaN else Str s)"

definition checkpoint_row :: "checkpoint \<Rightarrow> row" where
  "checkpoint_row r =
     (\<lambda>c. if c = ''source_file'' then csv_cell (source_file r)
          else if c = ''error'' then csv_cell (error r)
          else (case map_of (field_values r) c of None \<Rightarrow> NaN | Some v \<Rightarrow> csv_cell v))"

definition read_csv :: "string list \<Rightarrow> checkpoint list \<Rightarrow> dataframe" where
  "read_csv header rs =
     \<lparr>df_columns = header, df_index = [0..<length rs], df_rows = map checkpoint_row rs\<rparr>"

text \<open>\<open>pd.DataFrame(records)\<close>, the frame \<open>LLMProcessor.run\<close> returns.\<close>

definition records_frame :: "checkpoint list \<Rightarrow> dataframe" where
  "records_frame recs =
     \<lparr>df_columns = (if recs = [] then []
                     else ''source_file'' # remdups (concat (map (\<lambda>r. map fst (field_values r)) recs)) @ [''error'']),
      df_index = [0..<length recs],
      df_rows = map (\<lambda>r c. if c = ''source_file'' then Str (source_file r)
                           else if c = ''error'' then Str (error r)
                           else (case map_of (field_values r) c of None \<Rightarrow> NaN | Some v \<Rightarrow> Str v)) recs\<rparr>"

definition all_fieldnames :: "job \<Rightarrow> string list" where
  "all_fieldnames j =
     ''source_file'' # concat (map (\<lambda>c. [name c, name c @ ''_justification'']) (columns j)) @ [''error'']"

text \<open>
  Reading a column of the log back with \<open>pd.read_csv\<close>. A text that is one of the
  NA strings is read as null. A text that is number- or boolean-like can come
  back in another form: pandas converts a stretch of a column whose texts are
  all of that kind, and the values then print in Python's form and not as they
  were written (\<open>007\<close> comes back as \<open>7\<close>, \<open>1.50\<close> as \<open>1.5\<close>). \<open>literal_like\<close> holds of
  every text that can take part in such a conversion: stripped and lower-cased
  it is empty, \<open>true\<close> or \<open>false\<close>, a signed \<open>inf\<close> or \<open>infinity\<close>, or made of digits, \<open>.\<close>,
  \<open>e\<close>, \<open>j\<close>, \<open>+\<close> and \<open>-\<close> only. What comes back for such a text is the parameter \<open>printed\<close>:
  \<open>printed texts s\<close> is the text read back for \<open>s\<close> in a column written as \<open>texts\<close>.
  Every other text that is not null comes back as written.
\<close>

definition literal_like :: "string \<Rightarrow> bool" where
  "literal_like s =
     (let t = py_lower (py_strip s);
          unsigned = (if t \<noteq> [] \<and> hd t \<in> set ''+-'' then tl t else t)
      in t \<in> set [[], ''true'', ''false''] \<or> unsigned \<in> set [''inf'', ''infinity''] \<or>
         list_all (\<lambda>c. c \<in> set ''0123456789.ej+-'') t)"

text \<open>\<open>df[col].astype(str).tolist()\<close> of a column written as \<open>texts\<close>.\<close>

definition read_back :: "(string list \<Rightarrow> string \<Rightarrow> string) \<Rightarrow> string list \<Rightarrow> string list" where
  "read_back printed texts =
     map (\<lambda>s. case csv_cell s of
                NaN \<Rightarrow> ''nan''
              | Str t \<Rightarrow> if literal_like t then printed texts t else t) texts"

text \<open>What \<open>to_csv\<close> writes for the same column: a null cell as the empty text.\<close>

definition written_back :: "(string list \<Rightarrow> string \<Rightarrow> string) \<Rightarrow> string list \<Rightarrow> string list" where
  "written_back printed texts =
     map (\<lambda>s. case csv_cell s of
                NaN \<Rightarrow> []
              | Str t \<Rightarrow> if literal_like t then printed texts t else t) texts"

text \<open>
  \<open>_get_processed_files\<close>: the \<open>source_file\<close> column of the log as it is read back,
  in order.
\<close>

definition get_processed_files :: "(string list \<Rightarrow> string \<Rightarrow> string) \<Rightarrow> raw_csv \<Rightarrow> string list" where
  "get_processed_files printed f =
     (case f of None \<Rightarrow> [] | Some rs \<Rightarrow> read_back printed (map source_file rs))"

text \<open>
  \<open>_clean_raw_csv_errors\<close>: read the log, drop the rows the error mask marks, and
  write the rest back over it. A null cell is written back as the empty text;
  the form in which a number- or boolean-like text comes back is followed for
  \<open>source_file\<close> only.
\<close>

definition to_csv_text :: "string \<Rightarrow> string" where
  "to_csv_text s = (case csv_cell s of NaN \<Rightarrow> [] | Str t \<Rightarrow> t)"

definition clean_raw_csv_errors :: "(string list \<Rightarrow> string \<Rightarrow> string) \<Rightarrow> checkpoint list \<Rightarrow> checkpoint list" where
  "clean_raw_csv_errors printed rs =
     (let names = written_back printed (map source_file rs);
          clean_df = filter (\<lambda>(r, n). \<not> error_mask (csv_cell (error r))) (zip rs names)
      in map (\<lambda>(r, n). \<lparr>source_file = n,
                          field_values = map (\<lambda>(k, v). (k, to_csv_text v)) (field_values r),
                          error = to_csv_text (error r)\<rparr>) clean_df)"

definition get_unprocessed_files :: "job \<Rightarrow> string list \<Rightarrow> string set \<Rightarrow> path list" where
  "get_unprocessed_files j processed_files error_fs =
     filter (\<lambda>p. path_name p \<notin> set processed_files \<or> path_name p \<in> error_fs) (files j)"

text \<open>
  The state \<open>row_callback\<close> closes over and changes: the log file, the two sets of
  the session, and the job (the repository holds the very object, so
  \<open>_update_job_progress\<close> updates it).
\<close>

record session =
  csv :: raw_csv
  total_processed_files :: "string set"
  error_files :: "string set"
  the_job :: job

text \<open>
  \<open>csv.DictWriter.writerow\<close> raises on a key outside the field names, after the
  file was opened (and its header written when it is new); the processor swallows
  every exception of the callback.
\<close>

definition row_callback ::
  "string set \<Rightarrow> string list \<Rightarrow> int \<Rightarrow> int \<Rightarrow> session \<Rightarrow> checkpoint \<Rightarrow> session" where
  "row_callback processed_sources fieldnames baseline_files_processed baseline_error_count s record =
     (let src = source_file record in
      if src \<in> processed_sources then s
      else if src \<in> total_processed_files s then s
      else if \<not> set (map fst (field_values record)) \<subseteq> set fieldnames
      then s\<lparr>csv := Some (csv_rows (csv s))\<rparr>
      else
        let s1 = s\<lparr>csv := Some (csv_rows (csv s) @ [record])\<rparr>;
            s2 = s1\<lparr>total_processed_files := insert src (total_processed_files s1)\<rparr>;
            s3 = (if error record \<noteq> [] then s2\<lparr>error_files := insert src (error_files s2)\<rparr> else s2);
            new_files_processed = baseline_files_processed + int (card (total_processed_files s3));
            new_error_count = baseline_error_count + int (card (error_files s3))
        in s3\<lparr>the_job := update_progress (the_job s3) new_files_processed (Some new_error_count)\<rparr>)"

text \<open>
  The inference client is a parameter: at the \<open>i\<close>-th document it finds the file
  missing, raises with a message, or returns a list of items (dicts).
\<close>

datatype llm_outcome = Missing | Raised string | Results "(string \<times> string) list list"

definition path_str :: "path \<Rightarrow> string" where
  "path_str p = path_dir p @ ''/'' @ path_name p"

definition other_keys :: "(string \<times> string) list \<Rightarrow> (string \<times> string) list" where
  "other_keys item = filter (\<lambda>kv. fst kv \<noteq> ''source_file'' \<and> fst kv \<noteq> ''error'') item"

text \<open>The record of a success: \<open>{"source_file": file_name, **item, "error": ""}\<close>.\<close>

definition success_record :: "string \<Rightarrow> (string \<times> string) list \<Rightarrow> checkpoint" where
  "success_record file_name item =
     \<lparr>source_file = (case map_of item ''source_file'' of None \<Rightarrow> file_name | Some v \<Rightarrow> v),
      field_values = other_keys item, error = []\<rparr>"

definition error_record :: "column list \<Rightarrow> string \<Rightarrow> string \<Rightarrow> checkpoint" where
  "error_record cols file_name err_msg =
     \<lparr>source_file = file_name,
      field_values = other_keys (concat (map (\<lambda>c. [(name c, []), (name c @ ''_justification'', [])]) cols)),
      error = take 1000 err_msg\<rparr>"

fun llm_run ::
  "(nat \<Rightarrow> path \<Rightarrow> llm_outcome) \<Rightarrow> column list \<Rightarrow> (session \<Rightarrow> checkpoint \<Rightarrow> session) \<Rightarrow>
   nat \<Rightarrow> path list \<Rightarrow> session \<Rightarrow> checkpoint list \<Rightarrow> error option \<times> session \<times> checkpoint list" where
  "llm_run llm cols cb i [] s recs = (None, s, recs)"
| "llm_run llm cols cb i (document # ds) s recs =
     (case llm i document of
        Missing \<Rightarrow>
          (Some (FileNotFoundError (''Document '' @ path_str document @ '' does not exist.'')), s, recs)
      | Raised msg \<Rightarrow>
          (let record = error_record cols (path_name document) msg
           in llm_run llm cols cb (Suc i) ds (cb s record) (recs @ [record]))
      | Results [] \<Rightarrow>
          (let record = error_record cols (path_name document)
                          (''No results returned for document '' @ path_str document @ ''.'')
           in llm_run llm cols cb (Suc i) ds (cb s record) (recs @ [record]))
      | Results (item # rest) \<Rightarrow>
          (let record = success_record (path_name document) item
           in llm_run llm cols cb (Suc i) ds (cb s record) (recs @ [record])))"

text \<open>\<open>str(e)\<close> of the exceptions that reach \<open>job.fail\<close>.\<close>

fun str_error :: "error \<Rightarrow> string" where
  "str_error (ValueError m) = m"
| "str_error (RuntimeError m) = m"
| "str_error (FileNotFoundError m) = m"
| "str_error (InvalidColumnNameError m) = m"

text \<open>The work set when no file list is given: the job's files not yet processed.\<close>

definition remaining_files :: "job \<Rightarrow> string set \<Rightarrow> path list" where
  "remaining_files j processed_sources = filter (\<lambda>p. path_name p \<notin> processed_sources) (files j)"

definition process_remaining_files ::
  "(nat \<Rightarrow> path \<Rightarrow> llm_outcome) \<Rightarrow> job \<Rightarrow> string set \<Rightarrow> raw_csv \<Rightarrow> path list option \<Rightarrow>
   error option \<times> job \<times> raw_csv" where
  "process_remaining_files llm j processed_sources f files_arg =
     (let files_to_process =
            (case files_arg of
               None \<Rightarrow> remaining_files j processed_sources
             | Some fs \<Rightarrow> fs)
      in if files_to_process = [] then
           (case f of
              None \<Rightarrow> (None, j, f)
            | Some rs \<Rightarrow>
                (let (e, j') = complete j (read_csv (all_fieldnames j) rs) in (e, j', f)))
         else
           (let s0 = \<lparr>csv = f, total_processed_files = {}, error_files = {}, the_job = j\<rparr>;
                (e, s, recs) =
                  llm_run llm (columns j)
                    (row_callback processed_sources (all_fieldnames j) (files_processed j) (error_count j))
                    1 files_to_process s0 []
            in case e of
                 Some x \<Rightarrow> (Some x, the_job s, csv s)
               | None \<Rightarrow>
                   (let df_raw = (case csv s of
                                    Some rs \<Rightarrow> read_csv (all_fieldnames j) rs
                                  | None \<Rightarrow> records_frame recs);
                        (e', j') = complete (the_job s) df_raw
                    in (e', j', csv s))))"

text \<open>
  \<open>process_job\<close>: the status gate, the already-processed set (read from the log only
  when \<open>resume\<close> is set), the run, and \<open>job.fail(str(e))\<close> on any exception.
\<close>

definition process_job ::
  "(string list \<Rightarrow> string \<Rightarrow> string) \<Rightarrow> (nat \<Rightarrow> path \<Rightarrow> llm_outcome) \<Rightarrow> job \<Rightarrow> raw_csv \<Rightarrow> bool \<Rightarrow>
   job \<times> raw_csv" where
  "process_job printed llm j0 f resume =
     (if status j0 = PENDING \<or> status j0 = RUNNING then
        (let j1 = (if status j0 = PENDING then snd (start j0) else j0);
             processed_sources = (if f \<noteq> None \<and> resume then set (get_processed_files printed f) else {});
             j2 = (if f \<noteq> None \<and> resume
                   then update_progress j1 (int (card processed_sources)) None else j1);
             (e, j3, f') = process_remaining_files llm j2 processed_sources f None
         in case e of
              None \<Rightarrow> (j3, f')
            | Some x \<Rightarrow> (snd (fail j3 (str_error x)), f'))
      else (j0, f))"

text \<open>
  \<open>prepare_retry_and_get_cleaned_csv\<close>: the job and the log it leaves, with the
  exception it raises, if any. The text it returns is the cleaned log.
\<close>

definition prepare_retry_and_get_cleaned_csv ::
  "(string list \<Rightarrow> string \<Rightarrow> string) \<Rightarrow> job \<Rightarrow> raw_csv \<Rightarrow> error option \<times> job \<times> raw_csv" where
  "prepare_retry_and_get_cleaned_csv printed j f =
     (if status j \<noteq> DONE_WITH_ERRORS
      then (Some (ValueError ''Only jobs with done_with_errors status can be retried''), j, f)
      else case f of
             None \<Rightarrow> (Some (RuntimeError ''Raw CSV not found for job''), j, f)
           | Some rs \<Rightarrow>
               (let f1 = Some (clean_raw_csv_errors printed rs);
                    processed_files = get_processed_files printed f1;
                    (e, j1) = restart_for_retry j (int (length processed_files))
                in case e of
                     Some x \<Rightarrow> (Some x, j1, f1)
                   | None \<Rightarrow> (None, j1\<lparr>error_count := 0\<rparr>, f1)))"

definition retry_failed_records ::
  "(string list \<Rightarrow> string \<Rightarrow> string) \<Rightarrow> (nat \<Rightarrow> path \<Rightarrow> llm_outcome) \<Rightarrow> job \<Rightarrow> raw_csv \<Rightarrow> job \<times> raw_csv" where
  "retry_failed_records printed llm j f =
     (if status j \<noteq> RUNNING then (j, f)
      else case f of
             None \<Rightarrow> (snd (fail j ''Raw CSV not found''), f)
           | Some rs \<Rightarrow>
               (let processed_files = get_processed_files printed f;
                    files_to_process = get_unprocessed_files j processed_files {}
                in if files_to_process = []
                   then (case complete j (read_csv (all_fieldnames j) rs) of
                           (None, j') \<Rightarrow> (j', f)
                         | (Some x, j') \<Rightarrow> (snd (fail j' (str_error x)), f))
                   else (case process_remaining_files llm j (set processed_files) f (Some files_to_process) of
                           (None, j', f') \<Rightarrow> (j', f')
                         | (Some x, j', f') \<Rightarrow> (snd (fail j' (str_error x)), f'))))"

text \<open>
  What the two skip tests of \<open>row_callback\<close> rely on: the log holds each
  \<open>source_file\<close> once, and every logged \<open>source_file\<close> is in the already-processed
  set of the run or in the set of the session.
\<close>

definition log_covered :: "string set \<Rightarrow> session \<Rightarrow> bool" where
  "log_covered processed_sources s =
     (distinct (logged_files (csv s)) \<and>
      set (logged_files (csv s)) \<subseteq> processed_sources \<union> total_processed_files s)"

text \<open>
  A file name that is read back as it was written, whatever else the column
  holds: it is not an NA string, not blank and not number- or boolean-like.
\<close>

definition plain_name :: "string \<Rightarrow> bool" where
  "plain_name s = (s \<notin> set na_values \<and> \<not> literal_like s)"

section \<open>The Column value object and the column parser\<close>

text \<open>
  \<open>Column.__post_init__\<close> (domain/value_objects/column.py): the chain of
  \<open>str.lower\<close> and \<open>str.replace\<close> calls, in the order of the source.
\<close>

definition normalize_name :: "string \<Rightarrow> string" where
  "normalize_name nm =
     (let p0 = py_lower nm;
          p1 = py_replace CHR '' '' ''_'' p0;
          p2 = py_replace CHR ''-'' ''_'' p1;
          p3 = py_replace CHR ''+'' ''_'' p2;
          p4 = py_replace (CHR 0x27) [] p3;
          p5 = py_replace (CHR 0x22) [] p4;
          p6 = py_replace CHR ''('' [] p5;
          p7 = py_replace CHR '')'' [] p6;
          p8 = py_replace CHR ''&'' ''_and_'' p7;
          p9 = py_replace CHR ''/'' ''_'' p8
      in py_replace (CHR 0x5C) ''_'' p9)"

definition is_letter_or_underscore :: "char \<Rightarrow> bool" where
  "is_letter_or_underscore c =
     (c \<in> set ''abcdefghijklmnopqrstuvwxyzABCDEFGHIJKLMNOPQRSTUVWXYZ_'')"

definition is_word_char :: "char \<Rightarrow> bool" where
  "is_word_char c = (is_letter_or_underscore c \<or> c \<in> set ''0123456789'')"

text \<open>
  \<open>re.match(r'^[a-zA-Z_][a-zA-Z0-9_]*$', s)\<close>. In Python, \<open>$\<close> matches at the end of
  the string and also just before a newline that is the last character of the
  string, so after the greedy run of word characters the rest of the string may
  be empty or be that one newline.
\<close>

definition re_match_identifier :: "string \<Rightarrow> bool" where
  "re_match_identifier s =
     (case s of
        [] \<Rightarrow> False
      | c # cs \<Rightarrow>
          is_letter_or_underscore c \<and>
          (let rest = dropWhile is_word_char cs in rest = [] \<or> rest = [CHR 0x0A]))"

text \<open>
  The shape the data model and the docstring of the class state for a name: the
  whole string is of the form \<open>[a-zA-Z_][a-zA-Z0-9_]*\<close>.
\<close>

definition is_identifier :: "string \<Rightarrow> bool" where
  "is_identifier s =
     (case s of [] \<Rightarrow> False | c # cs \<Rightarrow> is_letter_or_underscore c \<and> list_all is_word_char cs)"

text \<open>Construction of a \<open>Column\<close>: the dataclass constructor followed by \<open>__post_init__\<close>.\<close>

definition Column :: "string \<Rightarrow> string \<Rightarrow> error + column" where
  "Column nm desc =
     (let processed_name = normalize_name nm in
      if \<not> re_match_identifier processed_name
      then Inl (InvalidColumnNameError
             (''Invalid column name: '' @ processed_name @
              ''. Must start with a letter or underscore and contain only letters, digits, and underscores.''))
      else if length desc > 300
      then Inl (ValueError ''Description must be a string not exceeding 300 characters.'')
      else Inr \<lparr>name = processed_name, description = desc\<rparr>)"

text \<open>
  \<open>parse_columns_payload\<close> (presentation/parsers/column_parser.py). Its argument
  is the payload as \<open>json.loads\<close> leaves it: not JSON, not a list, or a list of
  items; an item is a dict with a string \<open>name\<close> and \<open>description\<close> (the empty
  string when the key is absent), or anything else (\<open>Malformed\<close>), which
  \<open>ColumnInput(**item)\<close> rejects.
\<close>

datatype column_item = Malformed | ColumnItem string string

datatype json_payload = InvalidJSON | NotAList | JsonList "column_item list"

datatype http_detail =
    InvalidColumnsJSON
  | PayloadNotAList
  | InvalidColumnInput nat
  | InvalidColumn nat string error
  | DuplicateColumnNames "string list"
  | FilenameMissing

text \<open>
  What ends a request early: an \<open>HTTPException\<close> with its status code and detail,
  or another exception that escapes the handler (a server error).
\<close>

datatype http_error = HTTPException nat http_detail | UnhandledOSError

text \<open>\<open>ColumnInput\<close> (presentation/schema.py) with its validator \<open>name_not_empty\<close>.\<close>

fun ColumnInput :: "column_item \<Rightarrow> (string \<times> string) option" where
  "ColumnInput Malformed = None"
| "ColumnInput (ColumnItem n d) = (if py_strip n = [] then None else Some (n, d))"

fun validate_inputs :: "nat \<Rightarrow> column_item list \<Rightarrow> http_error + (string \<times> string) list" where
  "validate_inputs idx [] = Inr []"
| "validate_inputs idx (item # items) =
     (case ColumnInput item of
        None \<Rightarrow> Inl (HTTPException 400 (InvalidColumnInput idx))
      | Some ci \<Rightarrow>
          (case validate_inputs (Suc idx) items of
             Inl e \<Rightarrow> Inl e
           | Inr cis \<Rightarrow> Inr (ci # cis)))"

fun build_columns :: "nat \<Rightarrow> (string \<times> string) list \<Rightarrow> http_error + column list" where
  "build_columns idx [] = Inr []"
| "build_columns idx (ci # cis) =
     (case Column (fst ci) (snd ci) of
        Inl vo_err \<Rightarrow> Inl (HTTPException 400 (InvalidColumn idx (fst ci) vo_err))
      | Inr c \<Rightarrow>
          (case build_columns (Suc idx) cis of
             Inl e \<Rightarrow> Inl e
           | Inr cs \<Rightarrow> Inr (c # cs)))"

text \<open>The loop over \<open>domain_columns\<close> with its two sets \<open>seen\<close> and \<open>dups\<close>.\<close>

definition detect_step :: "column \<Rightarrow> string set \<times> string set \<Rightarrow> string set \<times> string set" where
  "detect_step c sd =
     (let seen = fst sd; dups = snd sd;
          dups' = (if name c \<in> seen then insert (name c) dups else dups)
      in (insert (name c) seen, dups'))"

definition duplicate_names :: "column list \<Rightarrow> string set" where
  "duplicate_names cs = snd (fold detect_step cs ({}, {}))"

definition parse_columns_payload :: "json_payload \<Rightarrow> http_error + column list" where
  "parse_columns_payload raw =
     (case raw of
        InvalidJSON \<Rightarrow> Inl (HTTPException 400 InvalidColumnsJSON)
      | NotAList \<Rightarrow> Inl (HTTPException 400 PayloadNotAList)
      | JsonList data \<Rightarrow>
          (case validate_inputs 1 data of
             Inl e \<Rightarrow> Inl e
           | Inr inputs \<Rightarrow>
               (case build_columns 1 inputs of
                  Inl e \<Rightarrow> Inl e
                | Inr domain_columns \<Rightarrow>
                    (let dups = duplicate_names domain_columns in
                     if dups \<noteq> {}
                     then Inl (HTTPException 400 (DuplicateColumnNames (sorted_list_of_set dups)))
                     else Inr domain_columns))))"

text \<open>
  The submission endpoint \<open>create_job\<close> (presentation/controllers/job_controller.py)
  over the in-memory repository: the columns are parsed first, then the uploads
  are staged under the job's directory, then the job is stored. An upload is
  its file name, if it has one. \<open>dest.open("wb")\<close> raises an \<open>OSError\<close> unless the
  name is that of a file directly under the fresh directory: not empty, not \<open>.\<close>
  or \<open>..\<close>, and without a slash. The background task is not part of the
  response.
\<close>

type_synonym job_store = "nat \<rightharpoonup> job"

definition file_name_ok :: "string \<Rightarrow> bool" where
  "file_name_ok filename =
     (filename \<notin> set [[], ''.'', ''..''] \<and> CHR ''/'' \<notin> set filename)"

fun stage_uploads :: "string \<Rightarrow> string option list \<Rightarrow> http_error + path list" where
  "stage_uploads tmp_dir [] = Inr []"
| "stage_uploads tmp_dir (None # us) = Inl (HTTPException 400 FilenameMissing)"
| "stage_uploads tmp_dir (Some filename # us) =
     (if \<not> file_name_ok filename then Inl UnhandledOSError
      else case stage_uploads tmp_dir us of
             Inl e \<Rightarrow> Inl e
           | Inr ps \<Rightarrow> Inr (Path tmp_dir filename # ps))"

definition create_job ::
  "job_store \<Rightarrow> nat \<Rightarrow> string \<Rightarrow> string option list \<Rightarrow> string \<Rightarrow> json_payload \<Rightarrow>
   (http_error + nat) \<times> job_store" where
  "create_job store temp_job_id tmp_dir uploads ctx columns_raw =
     (case parse_columns_payload columns_raw of
        Inl e \<Rightarrow> (Inl e, store)
      | Inr domain_columns \<Rightarrow>
          (case stage_uploads tmp_dir uploads of
             Inl e \<Rightarrow> (Inl e, store)
           | Inr paths \<Rightarrow>
               (Inr temp_job_id,
                store(temp_job_id \<mapsto> new_job temp_job_id paths ctx domain_columns))))"

text \<open>What an item has to satisfy for both loops of the parser to accept it.\<close>

fun item_valid :: "column_item \<Rightarrow> bool" where
  "item_valid Malformed = False"
| "item_valid (ColumnItem n d) =
     (py_strip n \<noteq> [] \<and> re_match_identifier (normalize_name n) \<and> length d \<le> 300)"

fun item_name :: "column_item \<Rightarrow> string" where
  "item_name Malformed = []"
| "item_name (ColumnItem n d) = n"

fun is_duplicate_names_error :: "http_error + column list \<Rightarrow> bool" where
  "is_duplicate_names_error (Inl (HTTPException code (DuplicateColumnNames ds))) = (code = 400)"
| "is_duplicate_names_error other = False"

section \<open>The aggregator (application/use_cases/aggregator.py)\<close>

text \<open>\<open>self.grouping_key\<close>, set once in \<open>__init__\<close>; \<open>aggregate\<close> takes the frame only.\<close>

definition grouping_key :: string where
  "grouping_key = ''country_alpha_3_code''"

datatype agg_error = KeyError string | PandasValueError string | IndexError

text \<open>
  \<open>re.split(r",\s*", s)\<close>: cut at every comma, and drop the whitespace that follows
  it. The flag says that a comma was just read; the accumulator holds the
  current piece in reverse.
\<close>

fun split_from :: "bool \<Rightarrow> string \<Rightarrow> string \<Rightarrow> string list" where
  "split_from skipping acc [] = [rev acc]"
| "split_from skipping acc (c # cs) =
     (if skipping \<and> is_space c then split_from True acc cs
      else if c = CHR '','' then rev acc # split_from True [] cs
      else split_from False (c # acc) cs)"

definition split_commas :: "string \<Rightarrow> string list" where
  "split_commas s = split_from False [] s"

text \<open>
  \<open>_safe_explode_countries\<close>: split both columns, keep the rows whose two lists
  have the same length, explode the two columns together, strip both. \<open>explode\<close>
  repeats the label of a row once for every element of its lists.
\<close>

definition safe_explode_countries :: "dataframe \<Rightarrow> dataframe" where
  "safe_explode_countries df =
     (let codes_col = grouping_key; name_col = ''country'' in
      if codes_col \<notin> set (df_columns df) \<or> name_col \<notin> set (df_columns df) then df
      else
        let work = map (\<lambda>r. (r, split_commas (astype_str (r codes_col)),
                                split_commas (astype_str (r name_col)))) (df_rows df);
            matching = filter (\<lambda>(r, codes, names). length codes = length names) work;
            exploded = concat (map (\<lambda>(r, codes, names).
                         map (\<lambda>(c, n). r(codes_col := Str c, name_col := Str n)) (zip codes names))
                       matching);
            stripped_codes = map (\<lambda>r. r(codes_col := Str (py_strip (astype_str (r codes_col))))) exploded;
            stripped_names = map (\<lambda>r. r(name_col := Str (py_strip (astype_str (r name_col))))) stripped_codes;
            labels = concat (map (\<lambda>(i, r, codes, names). replicate (length codes) i)
                       (filter (\<lambda>(i, r, codes, names). length codes = length names)
                          (zip (df_index df) work)))
        in df\<lparr>df_index := labels, df_rows := stripped_names\<rparr>)"

definition validate_input :: "dataframe \<Rightarrow> agg_error option" where
  "validate_input df =
     (if grouping_key \<notin> set (df_columns df)
      then Some (KeyError (''Required column '' @ [CHR 0x27] @ grouping_key @ [CHR 0x27] @
                           '' not found in DataFrame''))
      else None)"

definition ends_with :: "string \<Rightarrow> string \<Rightarrow> bool" where
  "ends_with s suffix =
     (length suffix \<le> length s \<and> drop (length s - length suffix) s = suffix)"

definition categorize_columns :: "dataframe \<Rightarrow> string list \<times> string list" where
  "categorize_columns df =
     (let all_columns = filter (\<lambda>c. c \<noteq> grouping_key) (df_columns df);
          justification_columns = filter (\<lambda>c. ends_with c ''_justification'') all_columns;
          regular_columns = filter (\<lambda>c. \<not> ends_with c ''_justification'' \<and>
                                        c \<notin> set [''source_file'', ''error'']) all_columns
      in (regular_columns, justification_columns))"

text \<open>The two reducers, on the cells of one column of one group, in row order.\<close>

definition get_first_value :: "cell list \<Rightarrow> string" where
  "get_first_value series =
     (let non_null_series = filter notna series in
      case non_null_series of [] \<Rightarrow> [] | c # rest \<Rightarrow> astype_str c)"

definition apply_yes_wins_rule :: "cell list \<Rightarrow> string" where
  "apply_yes_wins_rule series =
     (let non_null_series = filter notna series in
      case non_null_series of
        [] \<Rightarrow> ''Not specified''
      | c # rest \<Rightarrow>
          if list_ex (\<lambda>x. py_lower (astype_str x) = ''yes'') non_null_series then ''yes''
          else astype_str c)"

definition agg_func :: "string \<Rightarrow> cell list \<Rightarrow> string" where
  "agg_func col = (if col = ''country'' then get_first_value else apply_yes_wins_rule)"

text \<open>
  \<open>df.groupby(key, as_index=False)\<close>: one group per non-null key, the keys in sorted
  order, each group's rows in frame order.
\<close>

definition group_keys :: "dataframe \<Rightarrow> string list" where
  "group_keys df =
     sort (remdups (concat (map (\<lambda>r. case r grouping_key of NaN \<Rightarrow> [] | Str k \<Rightarrow> [k]) (df_rows df))))"

definition group_rows :: "dataframe \<Rightarrow> string \<Rightarrow> row list" where
  "group_rows df k = filter (\<lambda>r. r grouping_key = Str k) (df_rows df)"

text \<open>
  \<open>_aggregate_regular_columns\<close>. With no column to aggregate, \<open>agg\<close> of the empty
  dict raises pandas' ValueError.
\<close>

definition aggregate_regular_columns :: "dataframe \<Rightarrow> string list \<Rightarrow> agg_error + dataframe" where
  "aggregate_regular_columns df regular_columns =
     (if regular_columns = [] then Inl (PandasValueError ''No objects to concatenate'')
      else Inr \<lparr>df_columns = grouping_key # regular_columns,
                df_index = [0..<length (group_keys df)],
                df_rows = map (\<lambda>k c. if c = grouping_key then Str k
                                     else if c \<in> set regular_columns
                                     then Str (agg_func c (map (\<lambda>r. r c) (group_rows df k)))
                                     else NaN)
                              (group_keys df)\<rparr>)"

definition is_valid_justification :: "string \<Rightarrow> bool" where
  "is_valid_justification justification =
     (if py_strip justification = [] then False
      else py_strip (py_lower justification)
             \<notin> set [''not specified'', ''not found'', ''nan'', ''none'', []])"

text \<open>
  The inner loop of \<open>_add_justification_columns\<close> over \<open>matching_docs\<close>: the
  justification text and the source file of a row, and the formatted entries of
  the rows whose text is valid.
\<close>

definition justification_of :: "string \<Rightarrow> row \<Rightarrow> string" where
  "justification_of jcol src_row = (if notna (src_row jcol) then astype_str (src_row jcol) else [])"

definition source_file_of :: "dataframe \<Rightarrow> row \<Rightarrow> string" where
  "source_file_of df src_row =
     (if ''source_file'' \<in> set (df_columns df) then astype_str (src_row ''source_file'')
      else ''Unknown_File'')"

definition format_justifications :: "dataframe \<Rightarrow> string \<Rightarrow> row list \<Rightarrow> string list" where
  "format_justifications df jcol matching_docs =
     concat (map (\<lambda>src_row.
        if is_valid_justification (justification_of jcol src_row)
        then [source_file_of df src_row @ '': '' @ justification_of jcol src_row]
        else []) matching_docs)"

text \<open>\<open>series_raw.astype(str).str.lower().str.strip()\<close>, for one row.\<close>

definition normalized_value :: "string \<Rightarrow> row \<Rightarrow> string" where
  "normalized_value col r = py_strip (py_lower (astype_str (r col)))"

text \<open>
  The text assigned to a justification cell from the rows of \<open>matching_docs\<close>:
  the formatted entries, deduplicated, sorted and joined, and the literal
  \<open>Justification not provided\<close> when that text is empty.
\<close>

definition justification_cell :: "dataframe \<Rightarrow> string \<Rightarrow> row list \<Rightarrow> string" where
  "justification_cell original_df jcol matching_docs =
     (let justification_text =
            (if matching_docs \<noteq> [] \<and> jcol \<in> set (df_columns original_df)
             then py_join '' | ''
                    (sort (remdups (format_justifications original_df jcol matching_docs)))
             else [])
      in if justification_text \<noteq> [] then justification_text
         else ''Justification not provided'')"

text \<open>
  \<open>original_df.loc[country_mask & include_mask]\<close>. \<open>country_mask\<close> carries the row
  labels of the frame, \<open>include_mask\<close> those of the rows of the key. When the two
  have the same labels they combine row by row. Otherwise pandas aligns them by
  label: when the labels of \<open>include_mask\<close> are distinct and those of the frame
  ascend, as \<open>read_csv\<close> and \<open>explode\<close> leave them, or are distinct, every row of the
  frame gets the entry of \<open>include_mask\<close> under its label, and \<open>False\<close> when there is
  none. When a label is repeated among the rows of the key, the alignment pairs
  every occurrence of it with every other, the combined mask is longer than the
  frame, and the selection raises \<open>IndexError\<close>.
\<close>

definition loc_masks ::
  "(nat \<times> row) list \<Rightarrow> bool list \<Rightarrow> (nat \<times> bool) list \<Rightarrow> agg_error + row list" where
  "loc_masks labelled country_mask include_mask =
     (let frame_index = map fst labelled; mask_index = map fst include_mask in
      if mask_index = frame_index
      then Inr (map (\<lambda>((l, r), c, b). r)
                 (filter (\<lambda>((l, r), c, b). c \<and> b)
                    (zip labelled (zip country_mask (map snd include_mask)))))
      else if distinct mask_index \<and> (sorted frame_index \<or> distinct frame_index)
      then Inr (map (\<lambda>((l, r), c). r)
                 (filter (\<lambda>((l, r), c). c \<and> (case map_of include_mask l of None \<Rightarrow> False | Some b \<Rightarrow> b))
                    (zip labelled country_mask)))
      else Inl IndexError)"

text \<open>
  The body of the two loops of \<open>_add_justification_columns\<close> for one key and one
  column: \<open>None\<close> when \<open>include_mask\<close> is \<open>None\<close> and the cell keeps its initial empty
  string, otherwise the text assigned to the cell.
\<close>

definition merged_justification :: "dataframe \<Rightarrow> string \<Rightarrow> string \<Rightarrow> agg_error + string option" where
  "merged_justification original_df country_code col =
     (let labelled = zip (df_index original_df) (df_rows original_df);
          country_mask = map (\<lambda>(l, r). r grouping_key = Str country_code) labelled;
          series_raw = map fst (filter snd (zip labelled country_mask));
          series_vals = map (\<lambda>(l, r). (l, normalized_value col r)) series_raw;
          any_yes = list_ex (\<lambda>(l, v). v = ''yes'') series_vals;
          allowed_no_like = [''no'', ''not specified'', [], ''nan''];
          all_no_or_not_spec = (list_all (\<lambda>(l, v). v \<in> set allowed_no_like) series_vals \<and> \<not> any_yes);
          include_mask =
            (if any_yes then Some (map (\<lambda>(l, v). (l, v = ''yes'')) series_vals)
             else if all_no_or_not_spec
             then Some (map (\<lambda>(l, v). (l, v \<in> set [''no'', ''not specified''])) series_vals)
             else None)
      in case include_mask of
           None \<Rightarrow> Inr None
         | Some inc_mask \<Rightarrow>
             (case loc_masks labelled country_mask inc_mask of
                Inl e \<Rightarrow> Inl e
              | Inr matching_docs \<Rightarrow>
                  Inr (Some (justification_cell original_df (col @ ''_justification'') matching_docs))))"

text \<open>
  The loops of \<open>_add_justification_columns\<close>: over the policy columns for one row
  of the result, and over the rows of the result.
\<close>

fun populate :: "dataframe \<Rightarrow> string \<Rightarrow> string list \<Rightarrow> row \<Rightarrow> agg_error + row" where
  "populate original_df country_code [] r = Inr r"
| "populate original_df country_code (col # cols) r =
     (case merged_justification original_df country_code col of
        Inl e \<Rightarrow> Inl e
      | Inr None \<Rightarrow> populate original_df country_code cols r
      | Inr (Some t) \<Rightarrow> populate original_df country_code cols (r(col @ ''_justification'' := Str t)))"

fun populate_rows :: "dataframe \<Rightarrow> string list \<Rightarrow> row list \<Rightarrow> agg_error + row list" where
  "populate_rows original_df policy_columns [] = Inr []"
| "populate_rows original_df policy_columns (r # rs) =
     (case populate original_df (astype_str (r grouping_key)) policy_columns r of
        Inl e \<Rightarrow> Inl e
      | Inr r' \<Rightarrow>
          (case populate_rows original_df policy_columns rs of
             Inl e \<Rightarrow> Inl e
           | Inr rs' \<Rightarrow> Inr (r' # rs')))"

definition add_justification_columns ::
  "dataframe \<Rightarrow> dataframe \<Rightarrow> string list \<Rightarrow> agg_error + dataframe" where
  "add_justification_columns original_df result_df regular_columns =
     (let policy_columns = filter (\<lambda>c. c \<noteq> ''country'') regular_columns;
          initialize = (\<lambda>r. fold (\<lambda>col r'. r'(col @ ''_justification'' := Str [])) policy_columns r)
      in case populate_rows original_df policy_columns (map initialize (df_rows result_df)) of
           Inl e \<Rightarrow> Inl e
         | Inr populated \<Rightarrow>
             Inr \<lparr>df_columns = df_columns result_df @ map (\<lambda>c. c @ ''_justification'') policy_columns,
                  df_index = df_index result_df,
                  df_rows = populated\<rparr>)"

definition reorder_columns :: "dataframe \<Rightarrow> string list \<Rightarrow> dataframe" where
  "reorder_columns result_df regular_columns =
     (let policy_columns = filter (\<lambda>c. c \<noteq> ''country'') regular_columns;
          final_column_order =
            (if ''country'' \<in> set (df_columns result_df) then [''country''] else []) @
            [grouping_key] @
            concat (map (\<lambda>col. col # (if col @ ''_justification'' \<in> set (df_columns result_df)
                                       then [col @ ''_justification''] else [])) policy_columns);
          existing_columns = filter (\<lambda>c. c \<in> set (df_columns result_df)) final_column_order
      in result_df\<lparr>df_columns := existing_columns\<rparr>)"

definition aggregate :: "dataframe \<Rightarrow> agg_error + dataframe" where
  "aggregate df0 =
     (case validate_input df0 of
        Some e \<Rightarrow> Inl e
      | None \<Rightarrow>
          (let df = safe_explode_countries df0;
               (regular_columns, justification_columns) = categorize_columns df
           in case aggregate_regular_columns df regular_columns of
                Inl e \<Rightarrow> Inl e
              | Inr result_df \<Rightarrow>
                  (case add_justification_columns df result_df regular_columns of
                     Inl e \<Rightarrow> Inl e
                   | Inr with_justifications \<Rightarrow>
                       Inr (reorder_columns with_justifications regular_columns))))"



text \<open>
  What one row becomes when both columns are present: one row per pair of
  stripped pieces when the two lists have the same length, nothing otherwise.
\<close>

definition explode_row :: "row \<Rightarrow> row list" where
  "explode_row r =
     (let codes = split_commas (astype_str (r grouping_key));
          names = split_commas (astype_str (r ''country''))
      in if length codes = length names
         then map (\<lambda>(c, n). r(grouping_key := Str (py_strip c), ''country'' := Str (py_strip n)))
                (zip codes names)
         else [])"

text \<open>The row labels of the rows of a key, in frame order.\<close>

definition group_index :: "dataframe \<Rightarrow> string \<Rightarrow> nat list" where
  "group_index df k =
     map fst (filter (\<lambda>(l, r). r grouping_key = Str k) (zip (df_index df) (df_rows df)))"

text \<open>The first value of a series that is neither null nor the empty string.\<close>

definition first_non_empty :: "cell list \<Rightarrow> string option" where
  "first_non_empty series =
     (case filter (\<lambda>c. notna c \<and> astype_str c \<noteq> []) series of
        [] \<Rightarrow> None
      | c # rest \<Rightarrow> Some (astype_str c))"

section \<open>Concrete jobs, logs and clients\<close>

definition hpv_column :: column where
  "hpv_column = \<lparr>name = ''hpv'', description = []\<rparr>"

definition job_pending :: job where
  "job_pending = new_job 1 [Path ''tmp'' ''a.pdf'', Path ''tmp'' ''b.pdf''] ''ctx'' [hpv_column]"

definition job_running :: job where
  "job_running = job_pending\<lparr>status := RUNNING\<rparr>"

text \<open>A log row whose \<open>error\<close> is one blank, and one whose \<open>error\<close> is a message.\<close>

definition df_blank_error :: dataframe where
  "df_blank_error =
     \<lparr>df_columns = [''source_file'', ''hpv'', ''hpv_justification'', ''error''],
      df_index = [0],
      df_rows = [\<lambda>c. if c = ''source_file'' then Str ''a.pdf''
                     else if c = ''error'' then Str '' '' else NaN]\<rparr>"

definition df_one_error :: dataframe where
  "df_one_error =
     \<lparr>df_columns = [''source_file'', ''hpv'', ''hpv_justification'', ''error''],
      df_index = [0],
      df_rows = [\<lambda>c. if c = ''source_file'' then Str ''a.pdf''
                     else if c = ''error'' then Str ''timeout'' else NaN]\<rparr>"

text \<open>A job that finished with one failed file out of two.\<close>

definition job_done_with_errors :: job where
  "job_done_with_errors =
     job_pending\<lparr>status := DONE_WITH_ERRORS, result := Some df_one_error,
                  files_processed := 2, error_count := 1\<rparr>"

definition record_a :: checkpoint where
  "record_a = \<lparr>source_file = ''a.pdf'',
               field_values = [(''hpv'', ''yes''), (''hpv_justification'', ''p. 3'')],
               error = []\<rparr>"

definition record_b_failed :: checkpoint where
  "record_b_failed = \<lparr>source_file = ''b.pdf'',
               field_values = [(''hpv'', []), (''hpv_justification'', [])],
               error = ''timeout''\<rparr>"

text \<open>A client that answers every document with the same item.\<close>

definition llm_yes :: "nat \<Rightarrow> path \<Rightarrow> llm_outcome" where
  "llm_yes i p = Results [[(''hpv'', ''yes''), (''hpv_justification'', ''p. 3'')]]"

text \<open>
  A running job one of whose two files is named \<open>NA\<close>, and the record of that
  file.
\<close>

definition job_na_running :: job where
  "job_na_running =
     (new_job 2 [Path ''tmp'' ''NA'', Path ''tmp'' ''b.pdf''] ''ctx'' [hpv_column])\<lparr>status := RUNNING\<rparr>"

definition record_na :: checkpoint where
  "record_na = \<lparr>source_file = ''NA'',
                field_values = [(''hpv'', ''yes''), (''hpv_justification'', ''p. 3'')],
                error = []\<rparr>"

text \<open>
  A printed form for the logs below, none of which has a converted column of
  file names: every text as written.
\<close>

definition as_written :: "string list \<Rightarrow> string \<Rightarrow> string" where
  "as_written texts s = s"

text \<open>Rows of a raw frame with one policy column \<open>hpv\<close>.\<close>

definition policy_row :: "string \<Rightarrow> string \<Rightarrow> string \<Rightarrow> string \<Rightarrow> string \<Rightarrow> row" where
  "policy_row file code country_name val just =
     (\<lambda>c. if c = ''source_file'' then Str file
          else if c = ''country_alpha_3_code'' then Str code
          else if c = ''country'' then Str country_name
          else if c = ''hpv'' then Str val
          else if c = ''hpv_justification'' then Str just
          else NaN)"

definition policy_frame :: "row list \<Rightarrow> dataframe" where
  "policy_frame rs =
     \<lparr>df_columns = [''source_file'', ''country_alpha_3_code'', ''country'', ''hpv'',
                    ''hpv_justification'', ''error''],
      df_index = [0..<length rs],
      df_rows = rs\<rparr>"

definition df_no_yes_no :: dataframe where
  "df_no_yes_no = policy_frame
     [policy_row ''a'' ''AUT'' ''Austria'' ''no'' ''j1'',
      policy_row ''b'' ''AUT'' ''Austria'' ''yes'' ''j2'',
      policy_row ''c'' ''AUT'' ''Austria'' ''no'' ''j3'']"

definition df_capital_yes :: dataframe where
  "df_capital_yes = policy_frame [policy_row ''a'' ''AUT'' ''Austria'' ''Yes'' ''j'']"

definition df_maybe :: dataframe where
  "df_maybe = policy_frame [policy_row ''a'' ''AUT'' ''Austria'' ''maybe'' ''j'']"

definition df_two_countries :: dataframe where
  "df_two_countries = policy_frame
     [policy_row ''a'' ''AUT, DEU'' ''Austria, Germany'' ''yes'' ''j1'',
      policy_row ''b'' ''AUT, DEU'' ''Austria'' ''no'' ''j2'']"

definition df_no_key :: dataframe where
  "df_no_key = \<lparr>df_columns = [''source_file'', ''hpv'', ''hpv_justification'', ''error''],
                df_index = [0],
                df_rows = [policy_row ''a'' ''AUT'' ''Austria'' ''yes'' ''j1'']\<rparr>"

definition df_blank_name :: dataframe where
  "df_blank_name = policy_frame
     [policy_row ''a'' ''AUT'' [] ''no'' ''j1'',
      policy_row ''b'' ''AUT'' ''Austria'' ''no'' ''j2'']"

text \<open>A row that lists the key \<open>BRA\<close> twice, next to a row of another key.\<close>

definition df_repeated_key :: dataframe where
  "df_repeated_key = policy_frame
     [policy_row ''a'' ''BRA, BRA'' ''Brazil, Brazil'' ''yes'' ''j1'',
      policy_row ''b'' ''AUT'' ''Austria'' ''no'' ''j2'']"


definition df_all_no :: dataframe where
  "df_all_no = policy_frame
     [policy_row ''a'' ''AUT'' ''Austria'' ''no'' ''not found'',
      policy_row ''b'' ''AUT'' ''Austria'' ''not specified'' ''note'']"

text \<open>The cells of one column of an aggregation result, top to bottom.\<close>

definition result_column :: "agg_error + dataframe \<Rightarrow> string \<Rightarrow> cell list" where
  "result_column res c = (case res of Inl e \<Rightarrow> [] | Inr df \<Rightarrow> map (\<lambda>r. r c) (df_rows df))"

text \<open>The exception an aggregation ends with, if any.\<close>

definition raised :: "agg_error + dataframe \<Rightarrow> agg_error option" where
  "raised res = (case res of Inl e \<Rightarrow> Some e | Inr df \<Rightarrow> None)"

section \<open>The Job state machine\<close>

lemma py_strip_Nil: "py_strip [] = []"
  by (simp add: py_strip_def)

lemma error_mask_cell:
  "error_mask c = (case c of NaN \<Rightarrow> False | Str s \<Rightarrow> py_strip s \<noteq> [])"
  by (cases c) (auto simp: error_mask_def py_strip_Nil)

lemma has_errors_iff: "has_errors (Some df) = has_nonblank_error df"
  unfolding has_errors_def has_nonblank_error_def df_empty_def error_mask_cell
  by (auto simp: list_ex_iff)

lemmas example_job_defs =
  job_pending_def job_running_def job_done_with_errors_def new_job_def hpv_column_def

lemmas example_frame_defs = df_blank_error_def df_one_error_def

text \<open>
  C1, as stated, fails: a running job whose result has one record with the
  non-empty error \<open>" "\<close> (a single blank) completes as DONE, not as
  DONE_WITH_ERRORS. The third conjunct of the mask in \<open>_has_errors\<close> strips the
  value before comparing it with the empty string.
\<close>

theorem complete_blank_error_is_done:
  "has_nonempty_error df_blank_error \<and> status job_running = RUNNING \<and>
   status (snd (complete job_running df_blank_error)) = DONE"
  by (simp add: has_nonempty_error_def example_frame_defs example_job_defs complete_def
      has_errors_def df_empty_def error_mask_def py_strip_def is_space_def)

text \<open>
  C1, amended: for a job in RUNNING status and every result, \<open>complete\<close> raises
  nothing, stores the result, and sets the status to DONE_WITH_ERRORS when some
  record has an \<open>error\<close> that is not null and not blank (not empty once surrounding
  whitespace is stripped), and to DONE otherwise; in every other status it
  raises the ValueError of an illegal transition and leaves the job as it was.
\<close>

theorem complete_status_derivation:
  "(status j = RUNNING \<longrightarrow>
      fst (complete j df) = None \<and>
      status (snd (complete j df)) = (if has_nonblank_error df then DONE_WITH_ERRORS else DONE) \<and>
      result (snd (complete j df)) = Some df) \<and>
   (status j \<noteq> RUNNING \<longrightarrow>
      (\<exists>m. fst (complete j df) = Some (ValueError m)) \<and> snd (complete j df) = j)"
  using has_errors_iff[of df] by (simp add: complete_def)

theorem complete_status_derivation_witness:
  "status job_running = RUNNING \<and>
   has_nonblank_error df_one_error \<and>
   status (snd (complete job_running df_one_error)) = DONE_WITH_ERRORS \<and>
   \<not> has_nonblank_error df_blank_error \<and>
   status (snd (complete job_running df_blank_error)) = DONE \<and>
   status job_pending \<noteq> RUNNING \<and>
   snd (complete job_pending df_one_error) = job_pending"
proof -
  have running: "status job_running = RUNNING"
    and pending: "status job_pending \<noteq> RUNNING"
    by (simp_all add: example_job_defs)
  have err: "has_nonblank_error df_one_error"
    and blank: "\<not> has_nonblank_error df_blank_error"
    by (simp_all add: has_nonblank_error_def example_frame_defs py_strip_def is_space_def)
  from complete_status_derivation[of job_running df_one_error] running err
  have w1: "status (snd (complete job_running df_one_error)) = DONE_WITH_ERRORS"
    by simp
  from complete_status_derivation[of job_running df_blank_error] running blank
  have w2: "status (snd (complete job_running df_blank_error)) = DONE"
    by simp
  from complete_status_derivation[of job_pending df_one_error] pending
  have w3: "snd (complete job_pending df_one_error) = job_pending"
    by blast
  from running pending err blank w1 w2 w3 show ?thesis
    by blast
qed

text \<open>
  C5, as stated, fails: \<open>Job.restart_for_retry\<close> does not touch \<open>error_count\<close>. On a
  job in DONE_WITH_ERRORS with one recorded error the count is still 1 after
  the call.
\<close>

theorem restart_for_retry_keeps_error_count:
  "status job_done_with_errors = DONE_WITH_ERRORS \<and>
   fst (restart_for_retry job_done_with_errors 1) = None \<and>
   error_count (snd (restart_for_retry job_done_with_errors 1)) = 1"
  by (simp add: restart_for_retry_def example_job_defs)

text \<open>
  C5, amended: \<open>restart_for_retry(processed_count)\<close> is legal only in
  DONE_WITH_ERRORS and raises the ValueError of an illegal transition, leaving
  the job as it was, in every other status; when legal it sets the status to
  RUNNING and \<open>files_processed\<close> to \<open>processed_count\<close> and leaves \<open>error_count\<close> as it
  was. The reset of \<open>error_count\<close> to 0 is the next statement of its caller
  \<open>prepare_retry_and_get_cleaned_csv\<close>, which on a job in DONE_WITH_ERRORS with a
  log leaves the job RUNNING, with \<open>files_processed\<close> the number of rows left in
  the cleaned log and \<open>error_count\<close> 0.
\<close>

theorem restart_for_retry_transition:
  "(status j = DONE_WITH_ERRORS \<longrightarrow>
      fst (restart_for_retry j n) = None \<and>
      status (snd (restart_for_retry j n)) = RUNNING \<and>
      files_processed (snd (restart_for_retry j n)) = n \<and>
      error_count (snd (restart_for_retry j n)) = error_count j \<and>
      fst (prepare_retry_and_get_cleaned_csv printed j (Some rs)) = None \<and>
      status (fst (snd (prepare_retry_and_get_cleaned_csv printed j (Some rs)))) = RUNNING \<and>
      files_processed (fst (snd (prepare_retry_and_get_cleaned_csv printed j (Some rs))))
        = int (length (clean_raw_csv_errors printed rs)) \<and>
      error_count (fst (snd (prepare_retry_and_get_cleaned_csv printed j (Some rs)))) = 0) \<and>
   (status j \<noteq> DONE_WITH_ERRORS \<longrightarrow>
      (\<exists>m. fst (restart_for_retry j n) = Some (ValueError m)) \<and>
      snd (restart_for_retry j n) = j)"
  by (simp add: restart_for_retry_def prepare_retry_and_get_cleaned_csv_def
      get_processed_files_def read_back_def Let_def)

theorem restart_for_retry_transition_witness:
  "status job_done_with_errors = DONE_WITH_ERRORS \<and>
   status (snd (restart_for_retry job_done_with_errors 1)) = RUNNING \<and>
   files_processed (snd (restart_for_retry job_done_with_errors 1)) = 1 \<and>
   error_count (snd (restart_for_retry job_done_with_errors 1)) = 1 \<and>
   error_count (fst (snd (prepare_retry_and_get_cleaned_csv as_written job_done_with_errors
                            (Some [record_a, record_b_failed])))) = 0 \<and>
   files_processed (fst (snd (prepare_retry_and_get_cleaned_csv as_written job_done_with_errors
                            (Some [record_a, record_b_failed])))) = 1 \<and>
   status job_running \<noteq> DONE_WITH_ERRORS \<and>
   snd (restart_for_retry job_running 1) = job_running"
proof -
  have finished: "status job_done_with_errors = DONE_WITH_ERRORS"
    and count: "error_count job_done_with_errors = 1"
    and running: "status job_running \<noteq> DONE_WITH_ERRORS"
    by (simp_all add: example_job_defs)
  have cleaned: "clean_raw_csv_errors as_written [record_a, record_b_failed] = [record_a]"
    by code_simp
  from restart_for_retry_transition[of job_done_with_errors 1 as_written "[record_a, record_b_failed]"]
    finished count cleaned
  have legal:
    "status (snd (restart_for_retry job_done_with_errors 1)) = RUNNING \<and>
     files_processed (snd (restart_for_retry job_done_with_errors 1)) = 1 \<and>
     error_count (snd (restart_for_retry job_done_with_errors 1)) = 1 \<and>
     error_count (fst (snd (prepare_retry_and_get_cleaned_csv as_written job_done_with_errors
                            (Some [record_a, record_b_failed])))) = 0 \<and>
     files_processed (fst (snd (prepare_retry_and_get_cleaned_csv as_written job_done_with_errors
                            (Some [record_a, record_b_failed])))) = 1"
    by simp
  from restart_for_retry_transition[of job_running 1 as_written "[]"] running
  have illegal: "snd (restart_for_retry job_running 1) = job_running"
    by blast
  from finished running legal illegal show ?thesis
    by blast
qed

text \<open>
  C6, as stated, fails twice. \<open>update_progress\<close> stores what it is given: on a
  running job with two files, \<open>update_progress(5)\<close> leaves
  \<open>files_processed = 5 > total_files = 2\<close>. \<open>restart_for_retry\<close> keeps the result of
  the finished run: the job is RUNNING with \<open>result\<close> still set.
\<close>

theorem job_invariants_broken:
  "job_invariants job_running \<and>
   \<not> job_invariants (update_progress job_running 5 None) \<and>
   job_invariants job_done_with_errors \<and>
   fst (restart_for_retry job_done_with_errors 1) = None \<and>
   \<not> job_invariants (snd (restart_for_retry job_done_with_errors 1))"
  by (simp add: job_invariants_def update_progress_def restart_for_retry_def example_job_defs)

text \<open>
  C6, amended: \<open>start\<close>, \<open>complete\<close> and \<open>fail\<close> preserve the four Job invariants.
  \<open>update_progress\<close> changes the two counters only, so it keeps the two
  "set if and only if" invariants, and its result satisfies the two counter
  bounds exactly when the numbers it stores do: it checks nothing.
  \<open>restart_for_retry\<close>, when legal, keeps "error_message is set iff FAILED" and
  keeps the result of the finished run although the status becomes RUNNING, so
  "result is set iff status is DONE or DONE_WITH_ERRORS" does not survive it.
\<close>

theorem job_invariants_preserved:
  assumes "job_invariants j"
  shows "job_invariants (snd (start j)) \<and>
         job_invariants (snd (complete j df)) \<and>
         job_invariants (snd (fail j m)) \<and>
         (job_invariants (update_progress j n ec) =
            (n \<le> total_files j \<and> (case ec of None \<Rightarrow> error_count j | Some e \<Rightarrow> e) \<le> n)) \<and>
         ((error_message (snd (restart_for_retry j n)) \<noteq> None)
            = (status (snd (restart_for_retry j n)) = FAILED)) \<and>
         (status j = DONE_WITH_ERRORS \<longrightarrow>
            status (snd (restart_for_retry j n)) = RUNNING \<and>
            result (snd (restart_for_retry j n)) = result j \<and>
            result j \<noteq> None)"
  using assms
  by (auto simp: job_invariants_def start_def complete_def fail_def update_progress_def
      restart_for_retry_def Let_def split: option.splits)

theorem job_invariants_preserved_witness:
  "job_invariants job_running \<and>
   job_invariants (snd (start job_running)) \<and>
   job_invariants (snd (complete job_running df_one_error)) \<and>
   job_invariants (snd (fail job_running ''boom'')) \<and>
   job_invariants (update_progress job_running 1 (Some 1)) \<and>
   job_invariants job_done_with_errors \<and>
   status job_done_with_errors = DONE_WITH_ERRORS \<and>
   status (snd (restart_for_retry job_done_with_errors 1)) = RUNNING \<and>
   result (snd (restart_for_retry job_done_with_errors 1)) = Some df_one_error"
proof -
  have inv1: "job_invariants job_running" and inv2: "job_invariants job_done_with_errors"
    by (simp_all add: job_invariants_def example_job_defs)
  have total: "(1::int) \<le> total_files job_running"
    and finished: "status job_done_with_errors = DONE_WITH_ERRORS"
    and res: "result job_done_with_errors = Some df_one_error"
    by (simp_all add: example_job_defs)
  from job_invariants_preserved[OF inv1, of df_one_error "''boom''" 1 "Some 1"] total
  have kept: "job_invariants (snd (start job_running)) \<and>
     job_invariants (snd (complete job_running df_one_error)) \<and>
     job_invariants (snd (fail job_running ''boom'')) \<and>
     job_invariants (update_progress job_running 1 (Some 1))"
    by simp
  from job_invariants_preserved[OF inv2, of df_one_error "''boom''" 1 "Some 1"] finished res
  have retry: "status (snd (restart_for_retry job_done_with_errors 1)) = RUNNING \<and>
     result (snd (restart_for_retry job_done_with_errors 1)) = Some df_one_error"
    by simp
  from inv1 inv2 finished kept retry show ?thesis
    by blast
qed

section \<open>The checkpoint log\<close>

lemma read_back_plain:
  assumes "list_all plain_name texts"
  shows "read_back printed texts = texts"
proof -
  have "map (\<lambda>s. case csv_cell s of NaN \<Rightarrow> ''nan''
                 | Str t \<Rightarrow> if literal_like t then printed texts t else t) texts
        = map (\<lambda>s. s) texts"
    using assms by (intro map_cong) (auto simp: list_all_iff plain_name_def csv_cell_def)
  then show ?thesis by (simp add: read_back_def)
qed

lemma written_back_plain:
  assumes "list_all plain_name texts"
  shows "written_back printed texts = texts"
proof -
  have "map (\<lambda>s. case csv_cell s of NaN \<Rightarrow> []
                 | Str t \<Rightarrow> if literal_like t then printed texts t else t) texts
        = map (\<lambda>s. s) texts"
    using assms by (intro map_cong) (auto simp: list_all_iff plain_name_def csv_cell_def)
  then show ?thesis by (simp add: written_back_def)
qed

lemma get_processed_files_plain:
  "list_all plain_name (logged_files f) \<Longrightarrow> get_processed_files printed f = logged_files f"
  by (cases f) (simp_all add: get_processed_files_def logged_files_def csv_rows_def read_back_plain)

lemma zip_with_map: "zip xs (map g xs) = map (\<lambda>x. (x, g x)) xs"
  by (induction xs) auto

lemma clean_names_plain:
  assumes "list_all plain_name (map source_file rs)"
  shows "map source_file (clean_raw_csv_errors printed rs)
         = map source_file (filter (\<lambda>r. \<not> error_mask (csv_cell (error r))) rs)"
  by (simp add: clean_raw_csv_errors_def Let_def written_back_plain[OF assms] zip_with_map
      filter_map comp_def case_prod_beta)

lemma row_callback_covered:
  assumes "log_covered P s"
  shows "log_covered P (row_callback P fn b e s r)"
  using assms
  by (auto simp: log_covered_def row_callback_def Let_def logged_files_def csv_rows_def
      update_progress_def split: option.splits)

lemma row_callback_present:
  assumes "log_covered P s" and "source_file r \<in> set (logged_files (csv s))"
  shows "row_callback P fn b e s r = s"
  using assms by (auto simp: log_covered_def row_callback_def Let_def)

lemma row_callback_extends:
  "\<exists>new. csv_rows (csv (row_callback P fn b e s r)) = csv_rows (csv s) @ new"
  by (auto simp: row_callback_def Let_def csv_rows_def update_progress_def split: option.splits)

lemma llm_run_covered:
  assumes "log_covered P s"
  shows "log_covered P (fst (snd (llm_run llm cols (row_callback P fn b e) i ds s recs)))"
  using assms
proof (induction ds arbitrary: i s recs)
  case Nil
  then show ?case by simp
next
  case (Cons d ds)
  then show ?case
    by (auto simp: Let_def row_callback_covered split: llm_outcome.splits list.splits)
qed

lemma llm_run_extends:
  "\<exists>new. csv_rows (csv (fst (snd (llm_run llm cols (row_callback P fn b e) i ds s recs))))
           = csv_rows (csv s) @ new"
proof (induction ds arbitrary: i s recs)
  case Nil
  then show ?case by simp
next
  case (Cons d ds)
  have step: "\<exists>new. csv_rows (csv (fst (snd (llm_run llm cols (row_callback P fn b e) k ds
                         (row_callback P fn b e s r) recs')))) = csv_rows (csv s) @ new"
    for r k recs'
  proof -
    obtain n1 where n1: "csv_rows (csv (row_callback P fn b e s r)) = csv_rows (csv s) @ n1"
      using row_callback_extends by blast
    obtain n2 where "csv_rows (csv (fst (snd (llm_run llm cols (row_callback P fn b e) k ds
                         (row_callback P fn b e s r) recs'))))
                     = csv_rows (csv (row_callback P fn b e s r)) @ n2"
      using Cons.IH by blast
    with n1 show ?thesis by simp
  qed
  show ?case
    by (auto simp: Let_def step split: llm_outcome.splits list.splits)
qed

lemma process_remaining_files_log:
  "snd (snd (process_remaining_files llm j P f fa)) =
     (if (case fa of None \<Rightarrow> remaining_files j P | Some fs \<Rightarrow> fs) = [] then f
      else csv (fst (snd (llm_run llm (columns j)
             (row_callback P (all_fieldnames j) (files_processed j) (error_count j)) 1
             (case fa of None \<Rightarrow> remaining_files j P | Some fs \<Rightarrow> fs)
             \<lparr>csv = f, total_processed_files = {}, error_files = {}, the_job = j\<rparr> []))))"
  by (simp add: process_remaining_files_def Let_def split: option.splits prod.splits)

lemma process_remaining_files_csv:
  assumes "distinct (logged_files f)" and "set (logged_files f) \<subseteq> P"
  shows "distinct (logged_files (snd (snd (process_remaining_files llm j P f fa))))
       \<and> (\<exists>new. csv_rows (snd (snd (process_remaining_files llm j P f fa))) = csv_rows f @ new)"
proof -
  let ?s0 = "\<lparr>csv = f, total_processed_files = {}, error_files = {}, the_job = j\<rparr>"
  let ?cb = "row_callback P (all_fieldnames j) (files_processed j) (error_count j)"
  have c0: "log_covered P ?s0"
    using assms by (simp add: log_covered_def)
  have A: "distinct (logged_files (csv (fst (snd (llm_run llm (columns j) ?cb 1 ds ?s0 [])))))"
    for ds
    using llm_run_covered[OF c0] by (simp add: log_covered_def)
  have B: "\<exists>new. csv_rows (csv (fst (snd (llm_run llm (columns j) ?cb 1 ds ?s0 []))))
                  = csv_rows f @ new" for ds
    using llm_run_extends[of llm "columns j" P "all_fieldnames j" "files_processed j"
        "error_count j" 1 ds ?s0 "[]"] by simp
  show ?thesis
    unfolding process_remaining_files_log
    using assms(1) A B by simp
qed

lemma process_job_log:
  "snd (process_job printed llm j f resume) =
     (if status j = PENDING \<or> status j = RUNNING
      then snd (snd (process_remaining_files llm
             (if f \<noteq> None \<and> resume
              then update_progress (if status j = PENDING then snd (start j) else j)
                     (int (card (set (get_processed_files printed f)))) None
              else (if status j = PENDING then snd (start j) else j))
             (if f \<noteq> None \<and> resume then set (get_processed_files printed f) else {}) f None))
      else f)"
  by (simp add: process_job_def Let_def split: option.splits prod.splits)

lemma process_job_csv:
  assumes "distinct (logged_files f)" and "list_all plain_name (logged_files f)"
    and "resume \<or> f = None"
  shows "distinct (logged_files (snd (process_job printed llm j f resume)))
       \<and> (\<exists>new. csv_rows (snd (process_job printed llm j f resume)) = csv_rows f @ new)"
proof -
  have sub: "set (logged_files f)
               \<subseteq> (if f \<noteq> None \<and> resume then set (get_processed_files printed f) else {})"
    using assms(3) get_processed_files_plain[OF assms(2), of printed]
    by (auto simp: logged_files_def csv_rows_def)
  show ?thesis
    unfolding process_job_log
    using process_remaining_files_csv[OF assms(1) sub] assms(1) by simp
qed

lemma retry_failed_records_log:
  "snd (retry_failed_records printed llm j f) =
     (if status j \<noteq> RUNNING then f
      else case f of None \<Rightarrow> f
        | Some rs \<Rightarrow>
           if get_unprocessed_files j (get_processed_files printed f) {} = [] then f
           else snd (snd (process_remaining_files llm j (set (get_processed_files printed f)) f
                  (Some (get_unprocessed_files j (get_processed_files printed f) {})))))"
  by (simp add: retry_failed_records_def Let_def split: option.splits prod.splits)

lemma retry_failed_records_csv:
  assumes "distinct (logged_files f)" and "list_all plain_name (logged_files f)"
  shows "distinct (logged_files (snd (retry_failed_records printed llm j f)))
       \<and> (\<exists>new. csv_rows (snd (retry_failed_records printed llm j f)) = csv_rows f @ new)"
  unfolding retry_failed_records_log get_processed_files_plain[OF assms(2)]
  using process_remaining_files_csv[OF assms(1), of "set (logged_files f)"] assms(1)
  by (auto split: option.splits)

lemma prepare_retry_csv:
  assumes "distinct (logged_files f)" and "list_all plain_name (logged_files f)"
  shows "distinct (logged_files (snd (snd (prepare_retry_and_get_cleaned_csv printed j f))))"
proof (cases f)
  case None
  then show ?thesis
    using assms(1) by (simp add: prepare_retry_and_get_cleaned_csv_def)
next
  case (Some rs)
  have plain: "list_all plain_name (map source_file rs)"
    using assms(2) Some by (simp add: logged_files_def csv_rows_def)
  have "distinct (map source_file rs)"
    using assms(1) Some by (simp add: logged_files_def csv_rows_def)
  then have "distinct (map source_file (clean_raw_csv_errors printed rs))"
    by (simp add: clean_names_plain[OF plain] distinct_map_filter)
  then show ?thesis
    using assms(1) Some
    by (auto simp: prepare_retry_and_get_cleaned_csv_def Let_def logged_files_def csv_rows_def
        split: prod.splits option.splits)
qed

lemma remaining_files_unlogged:
  "set (map path_name (remaining_files j P)) \<inter> P = {}"
  by (auto simp: remaining_files_def)

lemmas example_run_defs =
  process_job_def process_remaining_files_def remaining_files_def row_callback_def
  all_fieldnames_def logged_files_def csv_rows_def success_record_def other_keys_def
  update_progress_def complete_def llm_yes_def record_a_def

lemma plain_a_pdf: "plain_name ''a.pdf''"
  by code_simp

lemma not_plain_examples:
  "\<not> plain_name ''NA''" "\<not> plain_name ''null''" "\<not> plain_name ''007''"
  "\<not> plain_name ''1e5''" "\<not> plain_name ''true''"
  by code_simp+

lemma read_back_NA: "read_back printed [''NA''] = [''nan'']"
  by (simp add: read_back_def csv_cell_def na_values_def)

text \<open>
  C2, as stated, fails twice. The callback never looks at the log, only at the
  already-processed set it was given and at the set of the session, and
  \<open>process_job\<close> fills the former from the log only when \<open>resume\<close> is set: entered
  without \<open>resume\<close> on a running job whose log already holds \<open>a.pdf\<close>, the run
  appends a second row for \<open>a.pdf\<close>. And with \<open>resume\<close> set the already-processed set
  holds the names as \<open>pd.read_csv\<close> reads them back: a file named \<open>NA\<close> is read back
  as null and becomes \<open>nan\<close>, so it stays in the work set and its record is
  appended again.
\<close>

theorem process_job_without_resume_duplicates:
  "distinct (logged_files (Some [record_a])) \<and>
   status job_running = RUNNING \<and>
   (\<forall>printed. logged_files (snd (process_job printed llm_yes job_running (Some [record_a]) False))
      = [''a.pdf'', ''a.pdf'', ''b.pdf'']) \<and>
   distinct (logged_files (Some [record_na])) \<and>
   status job_na_running = RUNNING \<and>
   (\<forall>printed. get_processed_files printed (Some [record_na]) = [''nan'']) \<and>
   (\<forall>printed. logged_files (snd (process_job printed llm_yes job_na_running (Some [record_na]) True))
      = [''NA'', ''NA'', ''b.pdf''])"
  by (simp add: example_run_defs example_job_defs job_na_running_def record_na_def
      get_processed_files_def read_back_NA Let_def)

text \<open>
  C2, amended: take a log that holds at most one record per \<open>source_file\<close> and
  whose file names are read back as written (none is an NA string, blank, or
  number- or boolean-like). In a run whose already-processed set covers the log
  (a job without a log yet, \<open>process_job\<close> with \<open>resume\<close> set, and the retry path,
  which all read the set from the log), the log keeps holding at most one
  record per \<open>source_file\<close>: the names are read back as written, the run and the
  cleaning step of the retry leave each \<open>source_file\<close> at most once, the rows
  logged before stay where they were as a prefix, and the work set computed on
  resume shares no file name with the log. Whatever the names, every call of
  the callback keeps a log that its two sets cover covered and duplicate-free,
  and a call for a \<open>source_file\<close> already in such a log changes nothing.
\<close>

theorem checkpoint_log_one_record_per_source_file:
  assumes "distinct (logged_files f)" and "list_all plain_name (logged_files f)"
    and "resume \<or> f = None"
  shows "get_processed_files printed f = logged_files f \<and>
         distinct (logged_files (snd (process_job printed llm j f resume))) \<and>
         (\<exists>new. csv_rows (snd (process_job printed llm j f resume)) = csv_rows f @ new) \<and>
         distinct (logged_files (snd (snd (prepare_retry_and_get_cleaned_csv printed j f)))) \<and>
         distinct (logged_files (snd (retry_failed_records printed llm j f))) \<and>
         (\<exists>new. csv_rows (snd (retry_failed_records printed llm j f)) = csv_rows f @ new) \<and>
         set (map path_name (remaining_files j (set (get_processed_files printed f))))
           \<inter> set (logged_files f) = {} \<and>
         (\<forall>P s r fn b e. log_covered P s \<longrightarrow> log_covered P (row_callback P fn b e s r)) \<and>
         (\<forall>P s r fn b e. log_covered P s \<longrightarrow> source_file r \<in> set (logged_files (csv s))
             \<longrightarrow> row_callback P fn b e s r = s)"
proof -
  have same_names: "get_processed_files printed f = logged_files f"
    by (rule get_processed_files_plain[OF assms(2)])
  have work: "set (map path_name (remaining_files j (set (get_processed_files printed f))))
                \<inter> set (logged_files f) = {}"
    using remaining_files_unlogged[of j "set (logged_files f)"] by (simp only: same_names)
  show ?thesis
    using same_names work process_job_csv[OF assms] prepare_retry_csv[OF assms(1,2)]
      retry_failed_records_csv[OF assms(1,2)] row_callback_covered row_callback_present
    by blast
qed

theorem checkpoint_log_one_record_per_source_file_witness:
  "distinct (logged_files (Some [record_a])) \<and>
   list_all plain_name (logged_files (Some [record_a])) \<and>
   \<not> plain_name ''NA'' \<and> \<not> plain_name ''null'' \<and> \<not> plain_name ''007'' \<and>
   \<not> plain_name ''1e5'' \<and> \<not> plain_name ''true'' \<and>
   get_processed_files as_written (Some [record_a]) = [''a.pdf''] \<and>
   logged_files (snd (process_job as_written llm_yes job_running (Some [record_a]) True))
     = [''a.pdf'', ''b.pdf''] \<and>
   distinct (logged_files (snd (process_job as_written llm_yes job_running (Some [record_a]) True))) \<and>
   map path_name (remaining_files job_running (set (get_processed_files as_written (Some [record_a]))))
     = [''b.pdf'']"
proof -
  have names: "logged_files (Some [record_a]) = [''a.pdf'']"
    by (simp add: logged_files_def csv_rows_def record_a_def)
  have logged: "distinct (logged_files (Some [record_a]))"
    by (simp add: names)
  have plain: "list_all plain_name (logged_files (Some [record_a]))"
    by (simp add: names plain_a_pdf)
  have resumed: "True \<or> Some [record_a] = None"
    by simp
  note run = checkpoint_log_one_record_per_source_file[OF logged plain resumed,
      of as_written llm_yes job_running]
  from run names have same_names: "get_processed_files as_written (Some [record_a]) = [''a.pdf'']"
    by simp
  from run have once: "distinct (logged_files
                 (snd (process_job as_written llm_yes job_running (Some [record_a]) True)))"
    by blast
  have log: "logged_files (snd (process_job as_written llm_yes job_running (Some [record_a]) True))
               = [''a.pdf'', ''b.pdf'']"
    by (simp add: example_run_defs example_job_defs same_names[unfolded record_a_def] Let_def)
  have work: "map path_name (remaining_files job_running (set (get_processed_files as_written (Some [record_a]))))
               = [''b.pdf'']"
    by (simp add: same_names remaining_files_def example_job_defs)
  from logged plain not_plain_examples same_names once log work show ?thesis
    by blast
qed

section \<open>Column names and the column parser\<close>

lemma normalize_vaccination_for_hpv:
  "normalize_name ''Vaccination for HPV'' = ''vaccination_for_hpv''"
  by code_simp

lemma normalize_vaccination_dashes:
  "normalize_name ''vaccination-for-hpv'' = ''vaccination_for_hpv''"
  by code_simp

lemma normalize_123abc: "normalize_name ''123abc'' = ''123abc''"
  by code_simp

lemma normalize_abc_newline: "normalize_name ''abc\<newline>'' = ''abc\<newline>''"
  by code_simp

lemma match_vaccination_for_hpv: "re_match_identifier ''vaccination_for_hpv''"
  by code_simp

lemma no_match_123abc: "\<not> re_match_identifier ''123abc''"
  by code_simp

lemma match_abc_newline: "re_match_identifier ''abc\<newline>''"
  by code_simp

lemma abc_newline_no_identifier: "\<not> is_identifier ''abc\<newline>''"
  by code_simp

lemma strip_example_names:
  "py_strip ''Vaccination for HPV'' \<noteq> []" "py_strip ''vaccination-for-hpv'' \<noteq> []"
  "py_strip ''123abc'' \<noteq> []" "py_strip ''abc\<newline>'' \<noteq> []"
  by code_simp+

lemmas column_eval =
  Column_def Let_def normalize_vaccination_for_hpv normalize_vaccination_dashes normalize_123abc
  normalize_abc_newline match_vaccination_for_hpv no_match_123abc match_abc_newline
  abc_newline_no_identifier strip_example_names

lemma Column_vaccination_for_hpv:
  "Column ''Vaccination for HPV'' [] = Inr \<lparr>name = ''vaccination_for_hpv'', description = []\<rparr>"
  by (simp add: column_eval)

lemma Column_123abc_rejected:
  "\<exists>m. Column ''123abc'' [] = Inl (InvalidColumnNameError m)"
  by (simp add: column_eval)

lemma Column_fails_iff:
  "(\<exists>m. Column nm d = Inl (InvalidColumnNameError m)) = (\<not> re_match_identifier (normalize_name nm))"
  by (auto simp: Column_def Let_def)

lemma dropWhile_Nil_iff: "(dropWhile P xs = []) = list_all P xs"
  by (induction xs) auto

lemma dropWhile_single_iff:
  "\<not> P x \<Longrightarrow> (dropWhile P xs = [x]) = (\<exists>ys. xs = ys @ [x] \<and> list_all P ys)"
proof (induction xs)
  case Nil
  then show ?case by simp
next
  case (Cons a xs)
  show ?case
  proof (cases "P a")
    case True
    have "(\<exists>ys. a # xs = ys @ [x] \<and> list_all P ys) = (\<exists>ys. xs = ys @ [x] \<and> list_all P ys)"
    proof
      assume "\<exists>ys. a # xs = ys @ [x] \<and> list_all P ys"
      then obtain ys where ys: "a # xs = ys @ [x]" "list_all P ys" by blast
      with True Cons.prems obtain zs where "ys = a # zs" by (cases ys) auto
      with ys show "\<exists>ys. xs = ys @ [x] \<and> list_all P ys" by auto
    next
      assume "\<exists>ys. xs = ys @ [x] \<and> list_all P ys"
      then obtain ys where "xs = ys @ [x]" "list_all P ys" by blast
      with True have "a # xs = (a # ys) @ [x] \<and> list_all P (a # ys)" by simp
      then show "\<exists>ys. a # xs = ys @ [x] \<and> list_all P ys" by blast
    qed
    with True Cons show ?thesis by simp
  next
    case False
    have "(\<exists>ys. a # xs = ys @ [x] \<and> list_all P ys) = (a = x \<and> xs = [])"
    proof
      assume "\<exists>ys. a # xs = ys @ [x] \<and> list_all P ys"
      then obtain ys where ys: "a # xs = ys @ [x]" "list_all P ys" by blast
      with False show "a = x \<and> xs = []" by (cases ys) auto
    next
      assume "a = x \<and> xs = []"
      then have "a # xs = [] @ [x] \<and> list_all P []" by simp
      then show "\<exists>ys. a # xs = ys @ [x] \<and> list_all P ys" by blast
    qed
    with False show ?thesis by auto
  qed
qed

lemma re_match_identifier_iff:
  "re_match_identifier s = (is_identifier s \<or> (\<exists>t. s = t @ [CHR 0x0A] \<and> is_identifier t))"
proof (cases s)
  case Nil
  then show ?thesis by (simp add: re_match_identifier_def is_identifier_def)
next
  case (Cons c cs)
  have nl: "\<not> is_word_char (CHR 0x0A)"
    by (simp add: is_word_char_def is_letter_or_underscore_def)
  have one: "(dropWhile is_word_char cs = [CHR 0x0A]) =
             (\<exists>ys. cs = ys @ [CHR 0x0A] \<and> list_all is_word_char ys)"
    using nl by (simp add: dropWhile_single_iff)
  have "(\<exists>t. c # cs = t @ [CHR 0x0A] \<and> is_identifier t) =
        (is_letter_or_underscore c \<and> (\<exists>ys. cs = ys @ [CHR 0x0A] \<and> list_all is_word_char ys))"
  proof
    assume "\<exists>t. c # cs = t @ [CHR 0x0A] \<and> is_identifier t"
    then obtain t where t: "c # cs = t @ [CHR 0x0A]" "is_identifier t" by blast
    then obtain ys where "t = c # ys"
      by (cases t) (auto simp: is_identifier_def)
    with t show "is_letter_or_underscore c \<and> (\<exists>ys. cs = ys @ [CHR 0x0A] \<and> list_all is_word_char ys)"
      by (auto simp: is_identifier_def)
  next
    assume "is_letter_or_underscore c \<and> (\<exists>ys. cs = ys @ [CHR 0x0A] \<and> list_all is_word_char ys)"
    then obtain ys where "is_letter_or_underscore c" "cs = ys @ [CHR 0x0A]" "list_all is_word_char ys"
      by blast
    then have "c # cs = (c # ys) @ [CHR 0x0A] \<and> is_identifier (c # ys)"
      by (simp add: is_identifier_def)
    then show "\<exists>t. c # cs = t @ [CHR 0x0A] \<and> is_identifier t" by blast
  qed
  moreover have "re_match_identifier (c # cs) =
      (is_letter_or_underscore c \<and>
       (list_all is_word_char cs \<or> (\<exists>ys. cs = ys @ [CHR 0x0A] \<and> list_all is_word_char ys)))"
    by (simp only: re_match_identifier_def list.case Let_def dropWhile_Nil_iff one)
  moreover have "is_identifier (c # cs) = (is_letter_or_underscore c \<and> list_all is_word_char cs)"
    by (simp only: is_identifier_def list.case)
  ultimately show ?thesis
    unfolding Cons by blast
qed

lemma fold_detect:
  "fst (fold detect_step cs (seen, dups)) = seen \<union> set (map name cs) \<and>
   (snd (fold detect_step cs (seen, dups)) = {}) =
     (dups = {} \<and> distinct (map name cs) \<and> set (map name cs) \<inter> seen = {})"
proof (induction cs arbitrary: seen dups)
  case Nil
  then show ?case by simp
next
  case (Cons c cs)
  show ?case
    using Cons.IH[of "insert (name c) seen" "if name c \<in> seen then insert (name c) dups else dups"]
    by (auto simp: detect_step_def Let_def)
qed

lemma duplicate_names_empty: "(duplicate_names cs = {}) = distinct (map name cs)"
  using fold_detect[of cs "{}" "{}"] by (simp add: duplicate_names_def)

lemma validate_inputs_Inr:
  "validate_inputs k data = Inr inputs \<Longrightarrow> map fst inputs = map item_name data"
proof (induction data arbitrary: k inputs)
  case Nil
  then show ?case by simp
next
  case (Cons a data)
  then show ?case
    by (cases a) (auto split: option.splits sum.splits if_splits)
qed

lemma build_columns_Inr:
  "build_columns k inputs = Inr cs \<Longrightarrow> map name cs = map (normalize_name \<circ> fst) inputs"
proof (induction inputs arbitrary: k cs)
  case Nil
  then show ?case by simp
next
  case (Cons a inputs)
  then show ?case
    by (auto simp: Column_def Let_def split: sum.splits if_splits)
qed

lemma validate_inputs_valid:
  "list_all item_valid data \<Longrightarrow>
   validate_inputs k data = Inr (map (\<lambda>i. (item_name i, case i of ColumnItem n d \<Rightarrow> d | Malformed \<Rightarrow> [])) data)"
proof (induction data arbitrary: k)
  case Nil
  then show ?case by simp
next
  case (Cons a data)
  then show ?case by (cases a) auto
qed

lemma build_columns_valid:
  "list_all (\<lambda>ci. re_match_identifier (normalize_name (fst ci)) \<and> length (snd ci) \<le> 300) inputs \<Longrightarrow>
   build_columns k inputs = Inr (map (\<lambda>ci. \<lparr>name = normalize_name (fst ci), description = snd ci\<rparr>) inputs)"
proof (induction inputs arbitrary: k)
  case Nil
  then show ?case by simp
next
  case (Cons a inputs)
  then show ?case by (auto simp: Column_def Let_def)
qed

lemma validate_inputs_400:
  "validate_inputs k data = Inl e \<Longrightarrow> \<exists>d. e = HTTPException 400 d"
proof (induction data arbitrary: k)
  case Nil
  then show ?case by simp
next
  case (Cons a data)
  then show ?case by (auto split: option.splits sum.splits)
qed

lemma build_columns_400:
  "build_columns k inputs = Inl e \<Longrightarrow> \<exists>d. e = HTTPException 400 d"
proof (induction inputs arbitrary: k)
  case Nil
  then show ?case by simp
next
  case (Cons a inputs)
  then show ?case by (auto split: sum.splits)
qed

lemma Column_fails_unless_identifier_or_newline:
  "(\<exists>m. Column nm d = Inl (InvalidColumnNameError m)) =
   (\<not> (is_identifier (normalize_name nm) \<or>
        (\<exists>t. normalize_name nm = t @ [CHR 0x0A] \<and> is_identifier t)))"
  unfolding Column_fails_iff re_match_identifier_iff by simp

text \<open>
  C8 is right and the constructor is not: the class promises a name made of
  letters, digits and underscores, but its pattern ends in \<open>$\<close>, which also
  matches just before a final newline. The name \<open>"abc\n"\<close> normalizes to itself,
  is not of the form \<open>[a-zA-Z_][a-zA-Z0-9_]*\<close>, and is accepted with the newline
  kept, by the constructor and by the parser of the submission boundary.
\<close>

theorem Column_accepts_trailing_newline:
  "normalize_name ''abc\<newline>'' = ''abc\<newline>'' \<and>
   \<not> is_identifier (normalize_name ''abc\<newline>'') \<and>
   Column ''abc\<newline>'' [] = Inr \<lparr>name = ''abc\<newline>'', description = []\<rparr> \<and>
   parse_columns_payload (JsonList [ColumnItem ''abc\<newline>'' []])
     = Inr [\<lparr>name = ''abc\<newline>'', description = []\<rparr>]"
  by (simp add: column_eval parse_columns_payload_def duplicate_names_def detect_step_def)

lemma parse_columns_payload_Inr:
  assumes "parse_columns_payload (JsonList data) = Inr cs"
  shows "map name cs = map (normalize_name \<circ> item_name) data \<and> distinct (map name cs)"
proof -
  from assms obtain inputs where v: "validate_inputs 1 data = Inr inputs"
    by (auto simp: parse_columns_payload_def split: sum.splits)
  with assms have b: "build_columns 1 inputs = Inr cs" and d: "duplicate_names cs = {}"
    by (auto simp: parse_columns_payload_def Let_def split: sum.splits if_splits)
  have "map name cs = map normalize_name (map fst inputs)"
    using build_columns_Inr[OF b] by simp
  also have "\<dots> = map (normalize_name \<circ> item_name) data"
    using validate_inputs_Inr[OF v] by simp
  finally show ?thesis
    using d by (simp add: duplicate_names_empty)
qed

lemma parse_columns_payload_valid:
  assumes "list_all item_valid data"
  shows "parse_columns_payload (JsonList data) =
     (let cs = map (\<lambda>i. \<lparr>name = normalize_name (item_name i),
                         description = (case i of ColumnItem n d \<Rightarrow> d | Malformed \<Rightarrow> [])\<rparr>) data
      in if duplicate_names cs \<noteq> {}
         then Inl (HTTPException 400 (DuplicateColumnNames (sorted_list_of_set (duplicate_names cs))))
         else Inr cs)"
proof -
  let ?inputs = "map (\<lambda>i. (item_name i, case i of ColumnItem n d \<Rightarrow> d | Malformed \<Rightarrow> [])) data"
  have ok: "list_all (\<lambda>ci. re_match_identifier (normalize_name (fst ci)) \<and> length (snd ci) \<le> 300) ?inputs"
    using assms
  proof (induction data)
    case Nil
    then show ?case by simp
  next
    case (Cons a data)
    then show ?case by (cases a) auto
  qed
  show ?thesis
    unfolding parse_columns_payload_def
    by (simp add: validate_inputs_valid[OF assms] build_columns_valid[OF ok] Let_def comp_def)
qed

lemma validate_inputs_Inl_detail:
  "validate_inputs k data = Inl e \<Longrightarrow> \<exists>i. e = HTTPException 400 (InvalidColumnInput i)"
proof (induction data arbitrary: k)
  case Nil
  then show ?case by simp
next
  case (Cons a data)
  then show ?case by (auto split: option.splits sum.splits)
qed

lemma build_columns_Inl_detail:
  "build_columns k inputs = Inl e \<Longrightarrow> \<exists>i n err. e = HTTPException 400 (InvalidColumn i n err)"
proof (induction inputs arbitrary: k)
  case Nil
  then show ?case by simp
next
  case (Cons a inputs)
  then show ?case by (auto split: sum.splits)
qed

lemma validate_inputs_Inr_valid:
  "validate_inputs k data = Inr inputs \<Longrightarrow>
   list_all (\<lambda>i. i \<noteq> Malformed \<and> py_strip (item_name i) \<noteq> []) data \<and>
   inputs = map (\<lambda>i. (item_name i, case i of ColumnItem n d \<Rightarrow> d | Malformed \<Rightarrow> [])) data"
proof (induction data arbitrary: k inputs)
  case Nil
  then show ?case by simp
next
  case (Cons a data)
  then show ?case
    by (cases a) (auto split: option.splits sum.splits if_splits)
qed

lemma build_columns_Inr_valid:
  "build_columns k inputs = Inr cs \<Longrightarrow>
   list_all (\<lambda>ci. re_match_identifier (normalize_name (fst ci)) \<and> length (snd ci) \<le> 300) inputs"
proof (induction inputs arbitrary: k cs)
  case Nil
  then show ?case by simp
next
  case (Cons a inputs)
  then show ?case
    by (auto simp: Column_def Let_def split: sum.splits if_splits)
qed

lemma duplicate_error_needs_valid_items:
  assumes "is_duplicate_names_error (parse_columns_payload (JsonList data))"
  shows "list_all item_valid data"
proof -
  have v: "\<exists>inputs. validate_inputs 1 data = Inr inputs"
  proof (cases "validate_inputs 1 data")
    case (Inl e)
    with validate_inputs_Inl_detail[OF Inl] assms show ?thesis
      by (auto simp: parse_columns_payload_def)
  next
    case (Inr inputs)
    then show ?thesis by blast
  qed
  then obtain inputs where inputs: "validate_inputs 1 data = Inr inputs" by blast
  have "\<exists>cs. build_columns 1 inputs = Inr cs"
  proof (cases "build_columns 1 inputs")
    case (Inl e)
    with build_columns_Inl_detail[OF Inl] inputs assms show ?thesis
      by (auto simp: parse_columns_payload_def)
  next
    case (Inr cs)
    then show ?thesis by blast
  qed
  then obtain cs where cs: "build_columns 1 inputs = Inr cs" by blast
  from validate_inputs_Inr_valid[OF inputs] build_columns_Inr_valid[OF cs]
  have a: "list_all (\<lambda>i. i \<noteq> Malformed \<and> py_strip (item_name i) \<noteq> []) data"
    and b: "list_all (\<lambda>ci. re_match_identifier (normalize_name (fst ci)) \<and> length (snd ci) \<le> 300)
              (map (\<lambda>i. (item_name i, case i of ColumnItem n d \<Rightarrow> d | Malformed \<Rightarrow> [])) data)"
    by simp_all
  show ?thesis
    unfolding list_all_iff
  proof
    fix i assume i: "i \<in> set data"
    with a b have "i \<noteq> Malformed \<and> py_strip (item_name i) \<noteq> []"
      and "re_match_identifier (normalize_name (item_name i)) \<and>
           length (case i of ColumnItem n d \<Rightarrow> d | Malformed \<Rightarrow> []) \<le> 300"
      by (auto simp: list_all_iff)
    then show "item_valid i" by (cases i) auto
  qed
qed

lemmas parser_eval =
  parse_columns_payload_def duplicate_names_def detect_step_def create_job_def

text \<open>
  C9, as stated, fails: the duplicate test runs only after every entry has been
  accepted on its own. With a third entry \<open>"123abc"\<close> next to the two colliding
  names, the submission is rejected for the invalid third column, not for the
  duplicate.
\<close>

theorem duplicate_masked_by_invalid_column:
  "normalize_name ''Vaccination for HPV'' = normalize_name ''vaccination-for-hpv'' \<and>
   \<not> is_duplicate_names_error
       (parse_columns_payload
          (JsonList [ColumnItem ''Vaccination for HPV'' [], ColumnItem ''vaccination-for-hpv'' [],
                     ColumnItem ''123abc'' []])) \<and>
   (\<exists>m. parse_columns_payload
          (JsonList [ColumnItem ''Vaccination for HPV'' [], ColumnItem ''vaccination-for-hpv'' [],
                     ColumnItem ''123abc'' []])
        = Inl (HTTPException 400 (InvalidColumn 3 ''123abc'' (InvalidColumnNameError m))))"
  by (simp add: column_eval parser_eval)

text \<open>
  C9, amended: if two entries of the submitted column list normalize to the
  same name, the submission is rejected with status 400 and the repository is
  left as it was, so no job is created; the error is the duplicate-column-names
  error, listing the repeated names in sorted order, exactly when every entry
  is accepted on its own (a dict with a non-blank name that normalizes to an
  accepted name, and a description of at most 300 characters).
\<close>

theorem duplicate_columns_rejected:
  assumes "\<not> distinct (map (normalize_name \<circ> item_name) data)"
  shows "(\<exists>d. parse_columns_payload (JsonList data) = Inl (HTTPException 400 d) \<and>
              create_job store jid dir uploads ctx (JsonList data)
                = (Inl (HTTPException 400 d), store)) \<and>
         is_duplicate_names_error (parse_columns_payload (JsonList data)) = list_all item_valid data \<and>
         (list_all item_valid data \<longrightarrow>
            (\<exists>cs. map name cs = map (normalize_name \<circ> item_name) data \<and>
                  parse_columns_payload (JsonList data)
                    = Inl (HTTPException 400
                        (DuplicateColumnNames (sorted_list_of_set (duplicate_names cs))))))"
proof -
  have rejected: "\<exists>d. parse_columns_payload (JsonList data) = Inl (HTTPException 400 d)"
  proof (cases "parse_columns_payload (JsonList data)")
    case (Inl e)
    then show ?thesis
      by (auto simp: parse_columns_payload_def Let_def split: sum.splits if_splits
          dest: validate_inputs_400 build_columns_400)
  next
    case (Inr cs)
    with assms parse_columns_payload_Inr[OF Inr] show ?thesis by metis
  qed
  then obtain d where d: "parse_columns_payload (JsonList data) = Inl (HTTPException 400 d)"
    by blast
  then have first: "\<exists>d. parse_columns_payload (JsonList data) = Inl (HTTPException 400 d) \<and>
              create_job store jid dir uploads ctx (JsonList data)
                = (Inl (HTTPException 400 d), store)"
    by (simp add: create_job_def)
  have second: "is_duplicate_names_error (parse_columns_payload (JsonList data)) \<and>
            (\<exists>cs. map name cs = map (normalize_name \<circ> item_name) data \<and>
                  parse_columns_payload (JsonList data)
                    = Inl (HTTPException 400
                        (DuplicateColumnNames (sorted_list_of_set (duplicate_names cs)))))"
    if valid: "list_all item_valid data"
  proof -
    let ?cs = "map (\<lambda>i. \<lparr>name = normalize_name (item_name i),
                         description = (case i of ColumnItem n d \<Rightarrow> d | Malformed \<Rightarrow> [])\<rparr>) data"
    have names: "map name ?cs = map (normalize_name \<circ> item_name) data"
      by (simp add: comp_def)
    from assms have "\<not> distinct (map name ?cs)"
      unfolding names .
    then have "duplicate_names ?cs \<noteq> {}"
      unfolding duplicate_names_empty .
    then have "parse_columns_payload (JsonList data)
                 = Inl (HTTPException 400 (DuplicateColumnNames (sorted_list_of_set (duplicate_names ?cs))))"
      using parse_columns_payload_valid[OF valid] by (simp add: Let_def)
    with names show ?thesis
      by (metis is_duplicate_names_error.simps(1))
  qed
  have third: "is_duplicate_names_error (parse_columns_payload (JsonList data)) = list_all item_valid data"
    using second duplicate_error_needs_valid_items[of data] by blast
  from first second third show ?thesis by blast
qed

theorem duplicate_columns_rejected_witness:
  "\<not> distinct (map (normalize_name \<circ> item_name)
        [ColumnItem ''Vaccination for HPV'' [], ColumnItem ''vaccination-for-hpv'' []]) \<and>
   list_all item_valid [ColumnItem ''Vaccination for HPV'' [], ColumnItem ''vaccination-for-hpv'' []] \<and>
   is_duplicate_names_error (parse_columns_payload
       (JsonList [ColumnItem ''Vaccination for HPV'' [], ColumnItem ''vaccination-for-hpv'' []])) \<and>
   parse_columns_payload
       (JsonList [ColumnItem ''Vaccination for HPV'' [], ColumnItem ''vaccination-for-hpv'' []])
     = Inl (HTTPException 400 (DuplicateColumnNames [''vaccination_for_hpv''])) \<and>
   snd (create_job Map.empty 7 ''tmp'' [Some ''a.pdf''] ''ctx''
       (JsonList [ColumnItem ''Vaccination for HPV'' [], ColumnItem ''vaccination-for-hpv'' []]))
     = Map.empty"
proof -
  let ?data = "[ColumnItem ''Vaccination for HPV'' [], ColumnItem ''vaccination-for-hpv'' []]"
  have collide: "\<not> distinct (map (normalize_name \<circ> item_name) ?data)"
    by (simp add: column_eval)
  have valid: "list_all item_valid ?data"
    by (simp add: column_eval)
  note rejected = duplicate_columns_rejected[OF collide, of Map.empty 7 "''tmp''" "[Some ''a.pdf'']" "''ctx''"]
  from rejected valid
  have dup: "is_duplicate_names_error (parse_columns_payload (JsonList ?data))"
    by blast
  from rejected
  have none: "snd (create_job Map.empty 7 ''tmp'' [Some ''a.pdf''] ''ctx'' (JsonList ?data)) = Map.empty"
    by auto
  have names: "parse_columns_payload (JsonList ?data)
                 = Inl (HTTPException 400 (DuplicateColumnNames [''vaccination_for_hpv'']))"
    by (simp add: column_eval parser_eval)
  from collide valid dup none names show ?thesis
    by blast
qed

section \<open>The aggregator\<close>

lemma filter_notna_all_null: "list_all (\<lambda>c. c = NaN) xs \<Longrightarrow> filter notna xs = []"
  by (induction xs) auto

lemma filter_notna_first:
  "list_all (\<lambda>c. c = NaN) pre \<Longrightarrow> filter notna (pre @ Str v # rest) = Str v # filter notna rest"
  by (simp add: filter_notna_all_null)

lemma yes_in_non_null:
  "list_ex (\<lambda>x. py_lower (astype_str x) = ''yes'') (filter notna series)
   = (\<exists>v. Str v \<in> set series \<and> py_lower v = ''yes'')"
proof -
  have eq: "(\<exists>x\<in>set series. notna x \<and> py_lower (astype_str x) = ''yes'')
        = (\<exists>v. Str v \<in> set series \<and> py_lower v = ''yes'')"
  proof
    assume "\<exists>x\<in>set series. notna x \<and> py_lower (astype_str x) = ''yes''"
    then obtain x where x: "x \<in> set series" "notna x" "py_lower (astype_str x) = ''yes''" by blast
    from x(2) obtain v where "x = Str v" by (cases x) auto
    with x show "\<exists>v. Str v \<in> set series \<and> py_lower v = ''yes''" by auto
  next
    assume "\<exists>v. Str v \<in> set series \<and> py_lower v = ''yes''"
    then obtain v where "Str v \<in> set series" "py_lower v = ''yes''" by blast
    then have "Str v \<in> set series \<and> notna (Str v) \<and> py_lower (astype_str (Str v)) = ''yes''" by simp
    then show "\<exists>x\<in>set series. notna x \<and> py_lower (astype_str x) = ''yes''" by blast
  qed
  have "list_ex (\<lambda>x. py_lower (astype_str x) = ''yes'') (filter notna series)
        = (\<exists>x\<in>set series. notna x \<and> py_lower (astype_str x) = ''yes'')"
    by (auto simp: list_ex_iff)
  with eq show ?thesis by (simp only:)
qed

lemma name_first_non_null:
  "list_all (\<lambda>c. c = NaN) pre \<Longrightarrow> agg_func ''country'' (pre @ Str v # rest) = v"
  by (simp add: agg_func_def get_first_value_def filter_notna_all_null)

lemma name_all_null:
  "list_all (\<lambda>c. c = NaN) series \<Longrightarrow> agg_func ''country'' series = []"
  by (simp add: agg_func_def get_first_value_def filter_notna_all_null)

lemma yes_wins:
  assumes "col \<noteq> ''country''" and "\<exists>v. Str v \<in> set series \<and> py_lower v = ''yes''"
  shows "agg_func col series = ''yes''"
proof -
  have ex: "list_ex (\<lambda>x. py_lower (astype_str x) = ''yes'') (filter notna series)"
    using assms(2) by (simp only: yes_in_non_null)
  then have "filter notna series \<noteq> []" by auto
  then obtain c rest where "filter notna series = c # rest" by (cases "filter notna series") auto
  with ex assms(1) show ?thesis
    by (simp add: agg_func_def apply_yes_wins_rule_def Let_def)
qed

lemma no_yes_first:
  assumes "col \<noteq> ''country''" and "list_all (\<lambda>c. c = NaN) pre"
    and "\<not> (\<exists>v. Str v \<in> set (pre @ Str v0 # rest) \<and> py_lower v = ''yes'')"
  shows "agg_func col (pre @ Str v0 # rest) = v0"
proof -
  have "\<not> list_ex (\<lambda>x. py_lower (astype_str x) = ''yes'') (filter notna (pre @ Str v0 # rest))"
    unfolding yes_in_non_null by (rule assms(3))
  moreover have "filter notna (pre @ Str v0 # rest) = Str v0 # filter notna rest"
    by (rule filter_notna_first[OF assms(2)])
  ultimately show ?thesis
    using assms(1)
    by (simp only: agg_func_def apply_yes_wins_rule_def Let_def if_False list.case astype_str.simps)
qed

lemma all_null_not_specified:
  "col \<noteq> ''country'' \<Longrightarrow> list_all (\<lambda>c. c = NaN) series \<Longrightarrow> agg_func col series = ''Not specified''"
  by (simp add: agg_func_def apply_yes_wins_rule_def filter_notna_all_null)

lemma aggregate_regular_cell:
  assumes "regular \<noteq> []" and "k \<in> set (group_keys df)" and "c \<in> set regular" and "c \<noteq> grouping_key"
  shows "\<exists>res. aggregate_regular_columns df regular = Inr res \<and>
           (\<exists>r\<in>set (df_rows res). r grouping_key = Str k \<and>
               r c = Str (agg_func c (map (\<lambda>r. r c) (group_rows df k))))"
  using assms by (auto simp: aggregate_regular_columns_def)














lemma key_not_country: "grouping_key \<noteq> ''country''"
  by (simp add: grouping_key_def)

lemma concat_map_filter_if:
  "concat (map f (filter P xs)) = concat (map (\<lambda>x. if P x then f x else []) xs)"
  by (induction xs) auto

lemma strip_code:
  "(r(grouping_key := Str c, ''country'' := Str n))
      (grouping_key := Str (py_strip (astype_str ((r(grouping_key := Str c, ''country'' := Str n)) grouping_key))))
   = r(grouping_key := Str (py_strip c), ''country'' := Str n)"
  using key_not_country by (auto simp: fun_eq_iff)

lemma strip_name:
  "(r(grouping_key := Str c, ''country'' := Str n))
      (''country'' := Str (py_strip (astype_str ((r(grouping_key := Str c, ''country'' := Str n)) ''country''))))
   = r(grouping_key := Str c, ''country'' := Str (py_strip n))"
  by (auto simp: fun_eq_iff)

lemma explode_one:
  "map (\<lambda>r. r(''country'' := Str (py_strip (astype_str (r ''country'')))))
     (map (\<lambda>r. r(grouping_key := Str (py_strip (astype_str (r grouping_key)))))
        (map (\<lambda>(c, n). r(grouping_key := Str c, ''country'' := Str n)) ps))
   = map (\<lambda>(c, n). r(grouping_key := Str (py_strip c), ''country'' := Str (py_strip n))) ps"
proof (induction ps)
  case Nil
  then show ?case by simp
next
  case (Cons p ps)
  obtain c n where p: "p = (c, n)" by (cases p)
  show ?case
    using Cons.IH by (simp only: p list.map prod.case strip_code strip_name)
qed

lemma safe_explode_rows:
  assumes "grouping_key \<in> set (df_columns df)" and "''country'' \<in> set (df_columns df)"
  shows "df_rows (safe_explode_countries df) = concat (map explode_row (df_rows df))"
proof -
  let ?sc = "\<lambda>r::row. r(''country'' := Str (py_strip (astype_str (r ''country''))))"
  let ?sk = "\<lambda>r::row. r(grouping_key := Str (py_strip (astype_str (r grouping_key))))"
  let ?work = "map (\<lambda>r. (r, split_commas (astype_str (r grouping_key)),
                            split_commas (astype_str (r ''country'')))) (df_rows df)"
  let ?ex = "\<lambda>(r, codes, names). map (\<lambda>(c, n). r(grouping_key := Str c, ''country'' := Str n)) (zip codes names)"
  have "df_rows (safe_explode_countries df)
        = map ?sc (map ?sk (concat (map ?ex (filter (\<lambda>(r, codes, names). length codes = length names) ?work))))"
    using assms by (simp add: safe_explode_countries_def Let_def)
  also have "\<dots> = concat (map (\<lambda>w. if (\<lambda>(r, codes, names). length codes = length names) w
                                      then map ?sc (map ?sk (?ex w)) else []) ?work)"
    by (simp add: map_concat concat_map_filter_if comp_def if_distrib cong: if_cong)
  also have "\<dots> = concat (map explode_row (df_rows df))"
  proof -
    have "(\<lambda>w. if (\<lambda>(r, codes, names). length codes = length names) w
               then map ?sc (map ?sk (?ex w)) else [])
          \<circ> (\<lambda>r. (r, split_commas (astype_str (r grouping_key)),
                       split_commas (astype_str (r ''country''))))
          = explode_row"
      by (rule ext) (simp only: comp_def prod.case explode_one explode_row_def Let_def)
    then show ?thesis by (simp only: map_map)
  qed
  finally show ?thesis .
qed

lemma zip_concat_map:
  "(\<forall>x\<in>set xs. length (f x) = length (g x)) \<Longrightarrow>
   zip (concat (map f xs)) (concat (map g xs)) = concat (map (\<lambda>x. zip (f x) (g x)) xs)"
  by (induction xs) auto

lemma zip_replicate_same: "zip (replicate (length xs) i) xs = map (\<lambda>x. (i, x)) xs"
  by (induction xs) auto

lemma length_explode_row:
  "length (explode_row r) =
     (if length (split_commas (astype_str (r grouping_key)))
          = length (split_commas (astype_str (r ''country'')))
      then length (split_commas (astype_str (r grouping_key))) else 0)"
  by (simp add: explode_row_def Let_def)

lemma replicate_if: "replicate (if c then n else 0) i = (if c then replicate n i else [])"
  by simp

lemma safe_explode_index:
  assumes "grouping_key \<in> set (df_columns df)" and "''country'' \<in> set (df_columns df)"
  shows "df_index (safe_explode_countries df)
         = concat (map (\<lambda>(i, r). replicate (length (explode_row r)) i) (zip (df_index df) (df_rows df)))"
proof -
  let ?h = "\<lambda>r::row. (r, split_commas (astype_str (r grouping_key)),
                          split_commas (astype_str (r ''country'')))"
  have z: "zip (df_index df) (map ?h (df_rows df))
           = map (\<lambda>(i, r). (i, ?h r)) (zip (df_index df) (df_rows df))"
    by (simp add: zip_map2)
  have "df_index (safe_explode_countries df)
        = concat (map (\<lambda>(i, r, codes, names). replicate (length codes) i)
            (filter (\<lambda>(i, r, codes, names). length codes = length names)
               (zip (df_index df) (map ?h (df_rows df)))))"
    using assms by (simp add: safe_explode_countries_def Let_def)
  also have "\<dots> = concat (map (\<lambda>(i, r). replicate (length (explode_row r)) i)
                       (zip (df_index df) (df_rows df)))"
    unfolding z concat_map_filter_if
    by (simp add: comp_def split_def length_explode_row replicate_if cong: if_cong)
  finally show ?thesis .
qed


lemma safe_explode_labelled:
  assumes "grouping_key \<in> set (df_columns df)" and "''country'' \<in> set (df_columns df)"
    and len: "length (df_index df) = length (df_rows df)"
  shows "zip (df_index (safe_explode_countries df)) (df_rows (safe_explode_countries df))
         = concat (map (\<lambda>(i, r). map (\<lambda>r'. (i, r')) (explode_row r))
             (zip (df_index df) (df_rows df)))"
proof -
  have rows: "df_rows (safe_explode_countries df)
              = concat (map (\<lambda>(i, r). explode_row r) (zip (df_index df) (df_rows df)))"
  proof -
    have "map (\<lambda>(i, r). explode_row r) (zip (df_index df) (df_rows df))
          = map explode_row (map snd (zip (df_index df) (df_rows df)))"
      by (simp add: split_def comp_def)
    then show ?thesis
      using safe_explode_rows[OF assms(1,2)] len by simp
  qed
  show ?thesis
    unfolding safe_explode_index[OF assms(1,2)] rows
    by (subst zip_concat_map) (auto simp: split_def zip_replicate_same)
qed

lemma replicated_labels_subset:
  "set (concat (map (\<lambda>(i, x). replicate (n x) i) qs)) \<subseteq> fst ` set qs"
  by (induction qs) (auto simp: set_replicate_conv_if split: if_splits)

lemma distinct_replicated:
  assumes "distinct (map fst ps)"
  shows "distinct (concat (map (\<lambda>(i, x). replicate (n x) i) ps))
         = (\<forall>(i, x)\<in>set ps. n x \<le> Suc 0)"
  using assms
proof (induction ps)
  case Nil
  then show ?case by simp
next
  case (Cons p ps)
  obtain i x where p: "p = (i, x)" by (cases p)
  have d1: "distinct (replicate (n x) i) = (n x \<le> Suc 0)"
    by (cases "n x") (auto simp: Suc_le_eq)
  have "i \<notin> fst ` set ps"
    using Cons.prems p by simp
  then have "set (replicate (n x) i) \<inter> set (concat (map (\<lambda>(i, x). replicate (n x) i) ps)) = {}"
    using replicated_labels_subset[of n ps] by (auto simp: set_replicate_conv_if split: if_splits)
  then show ?case
    using Cons p d1 by simp
qed

lemma sorted_replicated:
  assumes "sorted (map fst ps)"
  shows "sorted (concat (map (\<lambda>(i, x). replicate (n x) i) ps))"
  using assms
proof (induction ps)
  case Nil
  then show ?case by simp
next
  case (Cons p ps)
  obtain i x where p: "p = (i, x)" by (cases p)
  have "\<forall>j\<in>fst ` set ps. i \<le> j"
    using Cons.prems p by auto
  then have "\<forall>j\<in>set (concat (map (\<lambda>(i, x). replicate (n x) i) ps)). i \<le> j"
    using replicated_labels_subset[of n ps] by blast
  then show ?case
    using Cons p by (auto simp: sorted_append set_replicate_conv_if split: if_splits)
qed


lemma labels_of_filtered:
  "map fst (filter (\<lambda>p. Q (snd p)) (map (Pair i) xs)) = replicate (length (filter Q xs)) i"
  by (induction xs) auto

lemma exploded_group_index:
  assumes "grouping_key \<in> set (df_columns df)" and "''country'' \<in> set (df_columns df)"
    and len: "length (df_index df) = length (df_rows df)"
  shows "group_index (safe_explode_countries df) k
         = concat (map (\<lambda>(i, r). replicate
                      (length (filter (\<lambda>r'. r' grouping_key = Str k) (explode_row r))) i)
             (zip (df_index df) (df_rows df)))"
  unfolding group_index_def safe_explode_labelled[OF assms]
  by (simp add: filter_concat map_concat comp_def split_def
      labels_of_filtered[where Q = "\<lambda>r'. r' grouping_key = Str k"])

lemma comma_not_space: "\<not> is_space CHR '',''"
  by (simp add: is_space_def)

lemma split_from_skipping:
  "split_from True acc s = split_from False acc (dropWhile is_space s)"
  by (induction s) (auto simp: comma_not_space)

lemma split_from_piece:
  "CHR '','' \<notin> set p \<Longrightarrow> split_from False acc p = [rev acc @ p]"
  by (induction p arbitrary: acc) auto

lemma split_from_piece_comma:
  "CHR '','' \<notin> set p \<Longrightarrow>
   split_from False acc (p @ CHR '','' # rest) = (rev acc @ p) # split_from True [] rest"
  by (induction p arbitrary: acc) auto

lemma dropWhile_space_join:
  "dropWhile is_space (py_join '','' (q # qs)) = py_join '','' (dropWhile is_space q # qs)"
proof (cases qs)
  case Nil
  then show ?thesis by simp
next
  case (Cons q' qs')
  show ?thesis
  proof (cases "\<forall>c\<in>set q. is_space c")
    case True
    then have "dropWhile is_space q = []" by simp
    then show ?thesis
      using Cons True by (simp add: dropWhile_append comma_not_space)
  next
    case False
    then show ?thesis
      using Cons by (auto simp: dropWhile_append comma_not_space)
  qed
qed

lemma split_commas_join:
  assumes "\<forall>p\<in>set (p0 # ps). CHR '','' \<notin> set p"
  shows "split_commas (py_join '','' (p0 # ps)) = p0 # map (dropWhile is_space) ps"
  using assms
proof (induction ps arbitrary: p0)
  case Nil
  then show ?case by (simp add: split_commas_def split_from_piece)
next
  case (Cons q qs)
  have q: "\<forall>p\<in>set (dropWhile is_space q # qs). CHR '','' \<notin> set p"
    using Cons.prems by (auto dest: set_dropWhileD)
  have "split_commas (py_join '','' (p0 # q # qs))
        = p0 # split_from True [] (py_join '','' (q # qs))"
    using Cons.prems by (simp add: split_commas_def split_from_piece_comma)
  also have "\<dots> = p0 # split_commas (py_join '','' (dropWhile is_space q # qs))"
    by (simp only: split_from_skipping dropWhile_space_join split_commas_def)
  also have "\<dots> = p0 # dropWhile is_space q # map (dropWhile is_space) qs"
    using Cons.IH[OF q] by simp
  finally show ?case by simp
qed

lemma py_strip_dropWhile: "py_strip (dropWhile is_space p) = py_strip p"
  by (simp add: py_strip_def)

lemma strip_split_commas_join:
  assumes "ps \<noteq> []" and "\<forall>p\<in>set ps. CHR '','' \<notin> set p"
  shows "map py_strip (split_commas (py_join '','' ps)) = map py_strip ps"
    and "length (split_commas (py_join '','' ps)) = length ps"
proof -
  obtain p0 qs where ps: "ps = p0 # qs" using assms(1) by (cases ps) auto
  show "map py_strip (split_commas (py_join '','' ps)) = map py_strip ps"
    using split_commas_join[of p0 qs] assms(2) by (simp add: ps py_strip_dropWhile comp_def)
  show "length (split_commas (py_join '','' ps)) = length ps"
    using split_commas_join[of p0 qs] assms(2) by (simp add: ps)
qed

lemma eval_lower_YES: "py_lower ''YES'' = ''yes''"
  by code_simp

lemma eval_lower_no: "py_lower ''no'' \<noteq> ''yes''" "py_lower ''not specified'' \<noteq> ''yes''"
  by code_simp+

text \<open>
  C3, as stated, fails for the name field: \<open>_get_first_value\<close> drops nulls, not
  empty strings. For a group whose names are \<open>""\<close> and \<open>"Austria"\<close> the first
  non-empty value is \<open>"Austria"\<close>, and the reducer, alone and inside \<open>aggregate\<close>,
  returns \<open>""\<close>.
\<close>

theorem name_field_takes_empty_string:
  "first_non_empty [Str [], Str ''Austria''] = Some ''Austria'' \<and>
   agg_func ''country'' [Str [], Str ''Austria''] = [] \<and>
   result_column (aggregate df_blank_name) ''country'' = [Str []]"
  by code_simp

text \<open>
  C3, amended: in the per-key reduction of regular fields, the name field
  \<open>country\<close> resolves to the first non-null value of its group, whatever it is
  (the empty string included), and to the empty string when the group has no
  non-null value; every other regular field resolves to \<open>"yes"\<close> if any non-null
  value of the group equals \<open>"yes"\<close> after lower-casing, otherwise to the first
  non-null value, and to \<open>"Not specified"\<close> when the group has no non-null value.
  The cell of the aggregated row of a key under a regular column is that value
  for the rows of the key.
\<close>

theorem regular_field_reduction:
  "(list_all (\<lambda>c. c = NaN) pre \<longrightarrow> agg_func ''country'' (pre @ Str v # rest) = v) \<and>
   (list_all (\<lambda>c. c = NaN) series \<longrightarrow> agg_func ''country'' series = []) \<and>
   (col \<noteq> ''country'' \<longrightarrow>
      ((\<exists>w. Str w \<in> set series \<and> py_lower w = ''yes'') \<longrightarrow> agg_func col series = ''yes'') \<and>
      (list_all (\<lambda>c. c = NaN) pre \<and>
       \<not> (\<exists>w. Str w \<in> set (pre @ Str v # rest) \<and> py_lower w = ''yes'')
         \<longrightarrow> agg_func col (pre @ Str v # rest) = v) \<and>
      (list_all (\<lambda>c. c = NaN) series \<longrightarrow> agg_func col series = ''Not specified'')) \<and>
   (regular \<noteq> [] \<and> k \<in> set (group_keys df) \<and> c \<in> set regular \<and> c \<noteq> grouping_key \<longrightarrow>
      (\<exists>res. aggregate_regular_columns df regular = Inr res \<and>
         (\<exists>r\<in>set (df_rows res). r grouping_key = Str k \<and>
             r c = Str (agg_func c (map (\<lambda>r. r c) (group_rows df k))))))"
  using name_first_non_null[of pre v rest] name_all_null[of series]
    yes_wins[of col series] no_yes_first[of col pre v rest] all_null_not_specified[of col series]
    aggregate_regular_cell[of regular k df c]
  by blast

theorem regular_field_reduction_witness:
  "agg_func ''country'' ([NaN] @ Str ''Austria'' # [Str ''Germany'']) = ''Austria'' \<and>
   agg_func ''country'' [NaN, NaN] = [] \<and>
   agg_func ''hpv'' [NaN, Str ''no'', Str ''YES''] = ''yes'' \<and>
   agg_func ''hpv'' ([NaN] @ Str ''no'' # [Str ''not specified'']) = ''no'' \<and>
   agg_func ''hpv'' [NaN, NaN] = ''Not specified''"
proof -
  have null1: "list_all (\<lambda>c. c = NaN) [NaN]" and null2: "list_all (\<lambda>c. c = NaN) [NaN, NaN]"
    by simp_all
  have policy: "''hpv'' \<noteq> ''country''"
    by simp
  have some_yes: "\<exists>w. Str w \<in> set [NaN, Str ''no'', Str ''YES''] \<and> py_lower w = ''yes''"
    using eval_lower_YES by (intro exI[of _ "''YES''"]) simp
  have no_yes: "\<not> (\<exists>w. Str w \<in> set ([NaN] @ Str ''no'' # [Str ''not specified''])
                       \<and> py_lower w = ''yes'')"
    using eval_lower_no by auto
  note first = regular_field_reduction[where pre="[NaN]" and v="''Austria''"
      and rest="[Str ''Germany'']" and series="[NaN, NaN]" and col="''hpv''"]
  note second = regular_field_reduction[where pre="[NaN]" and v="''no''"
      and rest="[Str ''not specified'']" and series="[NaN, Str ''no'', Str ''YES'']" and col="''hpv''"]
  from first null1 have w1: "agg_func ''country'' ([NaN] @ Str ''Austria'' # [Str ''Germany'']) = ''Austria''"
    by blast
  from first null2 have w2: "agg_func ''country'' [NaN, NaN] = []"
    by blast
  from second policy some_yes have w3: "agg_func ''hpv'' [NaN, Str ''no'', Str ''YES''] = ''yes''"
    by blast
  from second policy null1 no_yes
  have w4: "agg_func ''hpv'' ([NaN] @ Str ''no'' # [Str ''not specified'']) = ''no''"
    by blast
  from first policy null2 have w5: "agg_func ''hpv'' [NaN, NaN] = ''Not specified''"
    by blast
  from w1 w2 w3 w4 w5 show ?thesis by blast
qed

lemmas frame_defs =
  policy_row_def policy_frame_def df_no_yes_no_def df_capital_yes_def df_maybe_def
  df_two_countries_def df_no_key_def df_all_no_def




lemma eval_strip_pieces:
  "py_strip ''AUT'' = ''AUT''" "py_strip '' DEU'' = ''DEU''"
  "py_strip ''Austria'' = ''Austria''" "py_strip '' Germany'' = ''Germany''"
  by code_simp+

text \<open>
  C7: when the frame has both the key column and the name column, every row is
  replaced by the rows it explodes to. A row whose key is the comma-separated
  list of the elements \<open>codes\<close> and whose name is the comma-separated list of the
  elements \<open>names\<close> (no element holds a comma; the blanks after a comma belong to
  the element that follows) becomes, when the two lists have the same length,
  one row per pair of elements, in order, each element stripped and every
  other cell copied; when the lengths differ the row is dropped. The key
  \<open>"AUT, DEU"\<close> with the name \<open>"Austria, Germany"\<close> becomes two rows; with the name
  \<open>"Austria"\<close> it becomes none.
\<close>

theorem safe_explode_countries_pairs:
  assumes "grouping_key \<in> set (df_columns df)" and "''country'' \<in> set (df_columns df)"
  shows "df_rows (safe_explode_countries df) = concat (map explode_row (df_rows df)) \<and>
         df_columns (safe_explode_countries df) = df_columns df \<and>
         (\<forall>r codes names.
            codes \<noteq> [] \<and> names \<noteq> [] \<and>
            (\<forall>p\<in>set (codes @ names). CHR '','' \<notin> set p) \<and>
            astype_str (r grouping_key) = py_join '','' codes \<and>
            astype_str (r ''country'') = py_join '','' names
            \<longrightarrow> explode_row r =
                  (if length codes = length names
                   then map (\<lambda>(c, n). r(grouping_key := Str (py_strip c), ''country'' := Str (py_strip n)))
                          (zip codes names)
                   else []))"
proof -
  have cols: "df_columns (safe_explode_countries df) = df_columns df"
    by (simp add: safe_explode_countries_def Let_def)
  have one: "explode_row r =
               (if length codes = length names
                then map (\<lambda>(c, n). r(grouping_key := Str (py_strip c), ''country'' := Str (py_strip n)))
                       (zip codes names)
                else [])"
    if ne: "codes \<noteq> []" "names \<noteq> []"
      and cf: "\<forall>p\<in>set (codes @ names). CHR '','' \<notin> set p"
      and k: "astype_str (r grouping_key) = py_join '','' codes"
      and n: "astype_str (r ''country'') = py_join '','' names"
    for r :: row and codes names
  proof -
    have cfc: "\<forall>p\<in>set codes. CHR '','' \<notin> set p" and cfn: "\<forall>p\<in>set names. CHR '','' \<notin> set p"
      using cf by auto
    let ?sc = "split_commas (py_join '','' codes)"
    let ?sn = "split_commas (py_join '','' names)"
    have lc: "length ?sc = length codes" and ln: "length ?sn = length names"
      using strip_split_commas_join(2)[OF ne(1) cfc] strip_split_commas_join(2)[OF ne(2) cfn]
      by simp_all
    have mc: "map py_strip ?sc = map py_strip codes" and mn: "map py_strip ?sn = map py_strip names"
      using strip_split_commas_join(1)[OF ne(1) cfc] strip_split_commas_join(1)[OF ne(2) cfn]
      by simp_all
    have "map (\<lambda>(c, n). r(grouping_key := Str (py_strip c), ''country'' := Str (py_strip n))) (zip ?sc ?sn)
          = map (\<lambda>(c, n). r(grouping_key := Str c, ''country'' := Str n))
              (zip (map py_strip ?sc) (map py_strip ?sn))"
      by (simp add: zip_map_map split_def)
    also have "\<dots> = map (\<lambda>(c, n). r(grouping_key := Str (py_strip c), ''country'' := Str (py_strip n)))
                       (zip codes names)"
      by (simp add: mc mn zip_map_map split_def)
    finally show ?thesis
      by (simp add: explode_row_def Let_def k n lc ln)
  qed
  show ?thesis
    using safe_explode_rows[OF assms] cols one by blast
qed

theorem safe_explode_countries_pairs_witness:
  "grouping_key \<in> set (df_columns df_two_countries) \<and>
   ''country'' \<in> set (df_columns df_two_countries) \<and>
   map (\<lambda>r. (r ''country_alpha_3_code'', r ''country'', r ''source_file''))
       (df_rows (safe_explode_countries df_two_countries))
     = [(Str ''AUT'', Str ''Austria'', Str ''a''), (Str ''DEU'', Str ''Germany'', Str ''a'')] \<and>
   map (\<lambda>r. (r ''country_alpha_3_code'', r ''country'', r ''source_file''))
       (explode_row (policy_row ''a'' ''AUT, DEU'' ''Austria, Germany'' ''yes'' ''j1''))
     = [(Str ''AUT'', Str ''Austria'', Str ''a''), (Str ''DEU'', Str ''Germany'', Str ''a'')] \<and>
   explode_row (policy_row ''b'' ''AUT, DEU'' ''Austria'' ''no'' ''j2'') = []"
proof -
  have cols: "grouping_key \<in> set (df_columns df_two_countries)"
             "''country'' \<in> set (df_columns df_two_countries)"
    by (simp_all add: frame_defs grouping_key_def)
  note rule = safe_explode_countries_pairs[OF cols]
  have ev: "map (\<lambda>r. (r ''country_alpha_3_code'', r ''country'', r ''source_file''))
       (df_rows (safe_explode_countries df_two_countries))
     = [(Str ''AUT'', Str ''Austria'', Str ''a''), (Str ''DEU'', Str ''Germany'', Str ''a'')]"
    by code_simp
  let ?a = "policy_row ''a'' ''AUT, DEU'' ''Austria, Germany'' ''yes'' ''j1''"
  let ?b = "policy_row ''b'' ''AUT, DEU'' ''Austria'' ''no'' ''j2''"
  have pa: "[''AUT'', '' DEU''] \<noteq> [] \<and> [''Austria'', '' Germany''] \<noteq> [] \<and>
            (\<forall>p\<in>set ([''AUT'', '' DEU''] @ [''Austria'', '' Germany'']). CHR '','' \<notin> set p) \<and>
            astype_str (?a grouping_key) = py_join '','' [''AUT'', '' DEU''] \<and>
            astype_str (?a ''country'') = py_join '','' [''Austria'', '' Germany'']"
    by (simp add: policy_row_def grouping_key_def)
  have pb: "[''AUT'', '' DEU''] \<noteq> [] \<and> [''Austria''] \<noteq> [] \<and>
            (\<forall>p\<in>set ([''AUT'', '' DEU''] @ [''Austria'']). CHR '','' \<notin> set p) \<and>
            astype_str (?b grouping_key) = py_join '','' [''AUT'', '' DEU''] \<and>
            astype_str (?b ''country'') = py_join '','' [''Austria'']"
    by (simp add: policy_row_def grouping_key_def)
  from rule pa
  have "explode_row ?a =
          (if length [''AUT'', '' DEU''] = length [''Austria'', '' Germany'']
           then map (\<lambda>(c, n). ?a(grouping_key := Str (py_strip c), ''country'' := Str (py_strip n)))
                  (zip [''AUT'', '' DEU''] [''Austria'', '' Germany''])
           else [])"
    by blast
  then have two: "map (\<lambda>r. (r ''country_alpha_3_code'', r ''country'', r ''source_file'')) (explode_row ?a)
     = [(Str ''AUT'', Str ''Austria'', Str ''a''), (Str ''DEU'', Str ''Germany'', Str ''a'')]"
    by (simp add: eval_strip_pieces grouping_key_def policy_row_def)
  from rule pb
  have "explode_row ?b =
          (if length [''AUT'', '' DEU''] = length [''Austria'']
           then map (\<lambda>(c, n). ?b(grouping_key := Str (py_strip c), ''country'' := Str (py_strip n)))
                  (zip [''AUT'', '' DEU''] [''Austria''])
           else [])"
    by blast
  then have none: "explode_row ?b = []"
    by simp
  from cols ev two none show ?thesis by simp
qed

text \<open>
  C10: \<open>aggregate\<close> takes the frame only; the grouping key is the fixed column
  name \<open>country_alpha_3_code\<close>. Whenever the frame has no column of that name,
  \<open>aggregate\<close> raises the KeyError of \<open>_validate_input\<close> and returns no frame.
\<close>

theorem aggregate_requires_grouping_key:
  assumes "''country_alpha_3_code'' \<notin> set (df_columns df)"
  shows "aggregate df = Inl (KeyError (''Required column '' @ [CHR 0x27] @ ''country_alpha_3_code''
                                        @ [CHR 0x27] @ '' not found in DataFrame'')) \<and>
         grouping_key = ''country_alpha_3_code''"
  using assms by (simp add: aggregate_def validate_input_def grouping_key_def)

theorem aggregate_requires_grouping_key_witness:
  "''country_alpha_3_code'' \<notin> set (df_columns df_no_key) \<and>
   aggregate df_no_key = Inl (KeyError (''Required column '' @ [CHR 0x27] @ ''country_alpha_3_code''
                                        @ [CHR 0x27] @ '' not found in DataFrame''))"
proof -
  have h: "''country_alpha_3_code'' \<notin> set (df_columns df_no_key)"
    by (simp add: df_no_key_def)
  from aggregate_requires_grouping_key[OF h] h show ?thesis by simp
qed

section \<open>The worked examples of the aggregation\<close>

text \<open>
  Yes-wins: for one key with values \<open>["no","yes","no"]\<close>, justifications
  \<open>["j1","j2","j3"]\<close> and files \<open>["a","b","c"]\<close>, \<open>aggregate\<close> returns one row with the
  columns in the order name, key, field, justification, the value \<open>"yes"\<close> and
  the justification \<open>"b: j2"\<close>.
\<close>

theorem aggregate_yes_wins_example:
  "(case aggregate df_no_yes_no of
      Inl e \<Rightarrow> ([], [])
    | Inr res \<Rightarrow> (df_columns res, map (\<lambda>r. map r (df_columns res)) (df_rows res)))
   = ([''country'', ''country_alpha_3_code'', ''hpv'', ''hpv_justification''],
      [[Str ''Austria'', Str ''AUT'', Str ''yes'', Str ''b: j2'']])"
  by code_simp

text \<open>
  All-no: for values \<open>["no","not specified"]\<close> from files \<open>["a","b"]\<close> with
  justifications \<open>["not found","note"]\<close>, the value is the first one, \<open>"no"\<close>, and
  the justification keeps the valid text only: \<open>"b: note"\<close>.
\<close>

theorem aggregate_all_no_example:
  "result_column (aggregate df_all_no) ''hpv'' = [Str ''no''] \<and>
   result_column (aggregate df_all_no) ''hpv_justification'' = [Str ''b: note'']"
  by code_simp

text \<open>
  Row explosion inside \<open>aggregate\<close>: the row with key \<open>"AUT, DEU"\<close> and name
  \<open>"Austria, Germany"\<close> gives one aggregated row per country, and the row whose
  name is \<open>"Austria"\<close> alone leaves no trace in either.
\<close>

theorem aggregate_explodes_rows_example:
  "result_column (aggregate df_two_countries) ''country_alpha_3_code'' = [Str ''AUT'', Str ''DEU''] \<and>
   result_column (aggregate df_two_countries) ''country'' = [Str ''Austria'', Str ''Germany''] \<and>
   result_column (aggregate df_two_countries) ''hpv'' = [Str ''yes'', Str ''yes''] \<and>
   result_column (aggregate df_two_countries) ''hpv_justification'' = [Str ''a: j1'', Str ''a: j1'']"
  by code_simp

section \<open>Row labels in the aggregation\<close>

text \<open>
  The row explosion keeps one label per row and keeps ascending labels
  ascending: every row a source row explodes to carries the label of that
  source row. So, when the labels of the source rows are distinct, the rows of
  a key have distinct labels in the exploded frame exactly when no source row
  explodes to two rows of that key.
\<close>

theorem safe_explode_countries_labels:
  assumes "grouping_key \<in> set (df_columns df)" and "''country'' \<in> set (df_columns df)"
    and len: "length (df_index df) = length (df_rows df)"
  shows "length (df_index (safe_explode_countries df)) = length (df_rows (safe_explode_countries df)) \<and>
         (sorted (df_index df) \<longrightarrow> sorted (df_index (safe_explode_countries df))) \<and>
         (distinct (df_index df) \<longrightarrow>
            distinct (group_index (safe_explode_countries df) k)
              = (\<forall>r\<in>set (df_rows df).
                   length (filter (\<lambda>r'. r' grouping_key = Str k) (explode_row r)) \<le> 1))"
proof -
  let ?W = "zip (df_index df) (df_rows df)"
  have fstW: "map fst ?W = df_index df" and sndW: "map snd ?W = df_rows df"
    using len by simp_all
  have l: "length (df_index (safe_explode_countries df)) = length (df_rows (safe_explode_countries df))"
  proof -
    have "length (df_index (safe_explode_countries df))
          = sum_list (map (\<lambda>p. length (explode_row (snd p))) ?W)"
      unfolding safe_explode_index[OF assms(1,2)]
      by (simp add: length_concat comp_def split_def)
    also have "\<dots> = sum_list (map (\<lambda>r. length (explode_row r)) (map snd ?W))"
      by (simp add: comp_def)
    also have "\<dots> = length (df_rows (safe_explode_countries df))"
      unfolding sndW safe_explode_rows[OF assms(1,2)]
      by (simp add: length_concat comp_def)
    finally show ?thesis .
  qed
  have s: "sorted (df_index (safe_explode_countries df))" if "sorted (df_index df)"
    unfolding safe_explode_index[OF assms(1,2)]
    using sorted_replicated[of ?W "\<lambda>r. length (explode_row r)"] that fstW by simp
  have d: "distinct (group_index (safe_explode_countries df) k)
           = (\<forall>r\<in>set (df_rows df).
                length (filter (\<lambda>r'. r' grouping_key = Str k) (explode_row r)) \<le> 1)"
    if "distinct (df_index df)"
  proof -
    have "distinct (group_index (safe_explode_countries df) k)
          = (\<forall>(i, r)\<in>set ?W.
               length (filter (\<lambda>r'. r' grouping_key = Str k) (explode_row r)) \<le> Suc 0)"
      unfolding exploded_group_index[OF assms]
      using distinct_replicated[of ?W
          "\<lambda>r. length (filter (\<lambda>r'. r' grouping_key = Str k) (explode_row r))"] that fstW
      by simp
    also have "\<dots> = (\<forall>r\<in>set (map snd ?W).
               length (filter (\<lambda>r'. r' grouping_key = Str k) (explode_row r)) \<le> 1)"
      by force
    finally show ?thesis by (simp only: sndW)
  qed
  from l s d show ?thesis by blast
qed

theorem safe_explode_countries_labels_witness:
  "grouping_key \<in> set (df_columns df_repeated_key) \<and>
   ''country'' \<in> set (df_columns df_repeated_key) \<and>
   length (df_index df_repeated_key) = length (df_rows df_repeated_key) \<and>
   sorted (df_index df_repeated_key) \<and>
   distinct (df_index df_repeated_key) \<and>
   length (df_index (safe_explode_countries df_repeated_key))
     = length (df_rows (safe_explode_countries df_repeated_key)) \<and>
   sorted (df_index (safe_explode_countries df_repeated_key)) \<and>
   distinct (group_index (safe_explode_countries df_repeated_key) ''AUT'') \<and>
   \<not> distinct (group_index (safe_explode_countries df_repeated_key) ''BRA'')"
proof -
  have cols: "grouping_key \<in> set (df_columns df_repeated_key)"
             "''country'' \<in> set (df_columns df_repeated_key)"
    by (simp_all add: df_repeated_key_def policy_frame_def grouping_key_def)
  have len: "length (df_index df_repeated_key) = length (df_rows df_repeated_key)"
    and asc: "sorted (df_index df_repeated_key)"
    and dist: "distinct (df_index df_repeated_key)"
    by (simp_all add: df_repeated_key_def policy_frame_def)
  have aut: "\<forall>r\<in>set (df_rows df_repeated_key).
               length (filter (\<lambda>r'. r' grouping_key = Str ''AUT'') (explode_row r)) \<le> 1"
    by code_simp
  have bra: "\<not> (\<forall>r\<in>set (df_rows df_repeated_key).
               length (filter (\<lambda>r'. r' grouping_key = Str ''BRA'') (explode_row r)) \<le> 1)"
    by code_simp
  from safe_explode_countries_labels[OF cols len, of "''AUT''"] asc dist aut
  have one: "length (df_index (safe_explode_countries df_repeated_key))
               = length (df_rows (safe_explode_countries df_repeated_key)) \<and>
             sorted (df_index (safe_explode_countries df_repeated_key)) \<and>
             distinct (group_index (safe_explode_countries df_repeated_key) ''AUT'')"
    by blast
  from safe_explode_countries_labels[OF cols len, of "''BRA''"] dist bra
  have two: "\<not> distinct (group_index (safe_explode_countries df_repeated_key) ''BRA'')"
    by blast
  from cols len asc dist one two show ?thesis
    by blast
qed

text \<open>
  A source row that lists a key twice: the key \<open>"BRA, BRA"\<close> next to a row of
  another key. Both rows of \<open>BRA\<close> carry the label 0, the two masks of the
  justification step do not line up, and \<open>aggregate\<close> raises \<open>IndexError\<close>.
\<close>

theorem aggregate_repeated_key_fails:
  "df_index (safe_explode_countries df_repeated_key) = [0, 0, 1] \<and>
   group_index (safe_explode_countries df_repeated_key) ''BRA'' = [0, 0] \<and>
   merged_justification (safe_explode_countries df_repeated_key) ''BRA'' ''hpv'' = Inl IndexError \<and>
   raised (aggregate df_repeated_key) = Some IndexError"
  by code_simp

end
